theory Spec2Isabelle
  imports Complex_Main "HOL-Library.Sublist" "HOL-Library.Extended_Nat"
begin

section \<open>Smart Parking Mission Control: a shallow embedding of main.py\<close>

subsection \<open>Decoded JSON values\<close>

text \<open>
  Everything the handlers read from the broker is the result of \<^verbatim>\<open>response.json()\<close>:
  \<^verbatim>\<open>None\<close>, a bool, a number, a string, a list or a dict. A dict is kept as the list of
  its items (the keys of a decoded dict are distinct); numbers are rationals, of which the
  handlers only ever test truthiness.
\<close>

datatype json =
    JNull
  | JBool bool
  | JNum rat
  | JStr string
  | JArr "json list"
  | JObj "(string \<times> json) list"

text \<open>The exceptions that leave a handler: FastAPI's \<^verbatim>\<open>HTTPException\<close> with its status
  code, and the uncaught Python exceptions.\<close>

datatype error =
    HTTPException nat
  | TypeError
  | AttributeError
  | KeyError
  | ValueError
  | SendError

text \<open>Sequencing of two steps either of which may raise: the first exception wins.\<close>

definition and_then :: "error + 'a \<Rightarrow> ('a \<Rightarrow> error + 'b) \<Rightarrow> error + 'b" where
  "and_then m f = (case m of Inl e \<Rightarrow> Inl e | Inr x \<Rightarrow> f x)"

text \<open>\<^verbatim>\<open>not attribute\<close>: Python's truth value of a decoded value.\<close>

fun truthy :: "json \<Rightarrow> bool" where
  "truthy JNull = False"
| "truthy (JBool b) = b"
| "truthy (JNum r) = (r \<noteq> 0)"
| "truthy (JStr s) = (s \<noteq> [])"
| "truthy (JArr xs) = (xs \<noteq> [])"
| "truthy (JObj kvs) = (kvs \<noteq> [])"

text \<open>\<^verbatim>\<open>d.get(k)\<close> on a dict: the value, or \<^verbatim>\<open>None\<close> when the key is missing.\<close>

definition dict_get :: "(string \<times> json) list \<Rightarrow> string \<Rightarrow> json" where
  "dict_get kvs k = (case map_of kvs k of None \<Rightarrow> JNull | Some v \<Rightarrow> v)"

text \<open>\<^verbatim>\<open>x.get(k)\<close> on any decoded value: only a dict has the method.\<close>

fun py_get :: "json \<Rightarrow> string \<Rightarrow> error + json" where
  "py_get (JObj kvs) k = Inr (dict_get kvs k)"
| "py_get _ k = Inl AttributeError"

text \<open>\<^verbatim>\<open>x[k]\<close> with a string key: \<^verbatim>\<open>KeyError\<close> on a dict without the key,
  \<^verbatim>\<open>TypeError\<close> on everything that is not a dict.\<close>

fun py_getitem :: "json \<Rightarrow> string \<Rightarrow> error + json" where
  "py_getitem (JObj kvs) k = (case map_of kvs k of None \<Rightarrow> Inl KeyError | Some v \<Rightarrow> Inr v)"
| "py_getitem _ k = Inl TypeError"

text \<open>\<^verbatim>\<open>needle in s\<close> on two strings: \<^verbatim>\<open>needle\<close> occurs in \<^verbatim>\<open>s\<close> as a substring.\<close>

fun substring_in :: "string \<Rightarrow> string \<Rightarrow> bool" where
  "substring_in p [] = (p = [])"
| "substring_in p (c # cs) = (prefix p (c # cs) \<or> substring_in p cs)"

text \<open>\<^verbatim>\<open>needle in x\<close> for a string needle: substring test on a string, membership in a
  list, key membership in a dict, \<^verbatim>\<open>TypeError\<close> on \<^verbatim>\<open>None\<close>, bools and numbers.\<close>

fun py_in :: "string \<Rightarrow> json \<Rightarrow> error + bool" where
  "py_in needle (JStr s) = Inr (substring_in needle s)"
| "py_in needle (JArr xs) = Inr (JStr needle \<in> set xs)"
| "py_in needle (JObj kvs) = Inr (needle \<in> fst ` set kvs)"
| "py_in needle _ = Inl TypeError"

text \<open>\<^verbatim>\<open>for x in v\<close>: the elements of a list, the keys of a dict, the characters of a
  string; \<^verbatim>\<open>TypeError\<close> on the values that are not iterable.\<close>

fun py_iter :: "json \<Rightarrow> error + json list" where
  "py_iter (JArr xs) = Inr xs"
| "py_iter (JObj kvs) = Inr (map (\<lambda>kv. JStr (fst kv)) kvs)"
| "py_iter (JStr s) = Inr (map (\<lambda>c. JStr [c]) s)"
| "py_iter _ = Inl TypeError"

subsection \<open>get_clean_value\<close>

text \<open>
  \<^verbatim>\<open>
  def get_clean_value(attribute):
      if not attribute:
          return None
      if isinstance(attribute, dict) and 'value' in attribute:
          return attribute['value']
      return attribute
  \<close>
\<close>

definition get_clean_value :: "json \<Rightarrow> json" where
  "get_clean_value attribute =
     (if \<not> truthy attribute then JNull
      else case attribute of
             JObj kvs \<Rightarrow> (case map_of kvs ''value'' of Some v \<Rightarrow> v | None \<Rightarrow> attribute)
           | _ \<Rightarrow> attribute)"

subsection \<open>find_parking_spot: the matching pass\<close>

record BookingRequest =
  requires_disabled :: bool
  requires_female :: bool
  requires_ev :: bool

text \<open>
  One iteration of the loop over \<^verbatim>\<open>all_spots\<close> (lines 89 to 129). The result is the
  exception that ends the handler, \<open>None\<close> when the spot is skipped (\<^verbatim>\<open>continue\<close>, or
  \<^verbatim>\<open>is_match\<close> false) and \<open>Some spot_weight\<close> when \<^verbatim>\<open>(spot, spot_weight)\<close> is appended
  to \<^verbatim>\<open>suitable_spots\<close>.
\<close>

definition examine_spot :: "BookingRequest \<Rightarrow> json \<Rightarrow> error + nat option" where
  "examine_spot preferences spot =
     and_then (py_get spot ''id'') (\<lambda>spot_id.
     and_then (py_get spot ''status'') (\<lambda>st.
     and_then (py_get spot ''category'') (\<lambda>cat.
       let status = get_clean_value st; categories = get_clean_value cat in
       if status \<noteq> JStr ''free'' then Inr None
       else
         and_then (py_in ''forElectricCharging'' categories) (\<lambda>ev.
         and_then (py_in ''forDisabled'' categories) (\<lambda>dis.
         and_then (py_in ''forWomen'' categories) (\<lambda>wom.
           let spot_weight = (if ev then 1 else 0) + (if dis then 1 else 0)
                               + (if wom then 1 else 0);
               is_match = True;
               is_match = (if requires_ev preferences \<and> \<not> ev then False else is_match);
               is_match = (if requires_disabled preferences \<and> \<not> dis then False else is_match);
               is_match = (if requires_female preferences \<and> \<not> wom then False else is_match);
               is_match = (if \<not> requires_disabled preferences \<and> \<not> requires_female preferences
                              \<and> (dis \<or> wom) then False else is_match)
           in Inr (if is_match then Some spot_weight else None)))))))"

text \<open>The loop itself: \<^verbatim>\<open>suitable_spots\<close> in iteration order, or the first exception.\<close>

fun scan_spots :: "BookingRequest \<Rightarrow> json list \<Rightarrow> error + (json \<times> nat) list" where
  "scan_spots preferences [] = Inr []"
| "scan_spots preferences (spot # rest) =
     and_then (examine_spot preferences spot) (\<lambda>r.
     and_then (scan_spots preferences rest) (\<lambda>suitable.
       Inr (case r of None \<Rightarrow> suitable | Some w \<Rightarrow> (spot, w) # suitable)))"

text \<open>
  The selection loop (lines 136 to 142), with \<^verbatim>\<open>float("inf")\<close> as \<open>\<infinity>\<close>:
  \<^verbatim>\<open>
  for spot, weight in suitable_spots:
      if weight < min_weight:
          min_weight = weight
          best_spot = spot
  \<close>
\<close>

fun pick_best :: "(json \<times> nat) list \<Rightarrow> json option \<Rightarrow> enat \<Rightarrow> json option" where
  "pick_best [] best_spot min_weight = best_spot"
| "pick_best ((spot, weight) # rest) best_spot min_weight =
     (if enat weight < min_weight then pick_best rest (Some spot) (enat weight)
      else pick_best rest best_spot min_weight)"

text \<open>Lines 145 to 154: the response built from \<^verbatim>\<open>best_spot\<close>.\<close>

definition spot_response :: "json \<Rightarrow> error + json" where
  "spot_response best_spot =
     and_then (py_get best_spot ''location'') (\<lambda>loc.
       let location_data = get_clean_value loc in
       and_then (if truthy location_data then py_get location_data ''coordinates''
                 else Inr (JArr [JNum 0, JNum 0])) (\<lambda>coordinates.
       and_then (py_get best_spot ''id'') (\<lambda>bid.
       and_then (py_get best_spot ''spotNumber'') (\<lambda>num.
         Inr (JObj [(''status'', JStr ''success''),
                    (''assigned_spot_id'', bid),
                    (''spot_number'', get_clean_value num),
                    (''coordinates'', coordinates),
                    (''message'', JStr ''Spot reserved successfully.'')])))))"

definition no_spot_response :: json where
  "no_spot_response =
     JObj [(''status'', JStr ''failure''), (''message'', JStr ''No suitable spots available.'')]"

text \<open>The body of \<^verbatim>\<open>find_parking_spot\<close> from line 87 on, on the spots it iterates over.\<close>

definition match_spots :: "BookingRequest \<Rightarrow> json list \<Rightarrow> error + json" where
  "match_spots preferences all_spots =
     and_then (scan_spots preferences all_spots) (\<lambda>suitable_spots.
       if suitable_spots = [] then Inr no_spot_response
       else (case pick_best suitable_spots None \<infinity> of
               None \<Rightarrow> Inl AttributeError
             | Some best_spot \<Rightarrow> spot_response best_spot))"

subsection \<open>The world outside the process\<close>

text \<open>
  The handlers talk to the context broker through \<^verbatim>\<open>requests\<close> and to the machines
  through their web sockets. A request either raises (no connection, timeout) or comes
  back with a status code and a body, which \<^verbatim>\<open>response.json()\<close> decodes or fails to.
\<close>

datatype http_method = GET | POST | PATCH | DELETE

datatype request =
  Request (verb: http_method) (url: string) (params: "(string \<times> string) list")
    (body: "json option")

datatype http_result =
    ConnectionFailed
  | Response (status_code: nat) (decoded: "json option")

text \<open>What the process does to the outside, in the order it does it: a request with the
  answer it got, and a \<^verbatim>\<open>send_json\<close> on a connection with whether it went through.\<close>

datatype effect =
    Http request http_result
  | SendJson nat json bool

text \<open>
  The environment is everything the code does not define: the broker (a state and its
  answer to each request), which sends succeed, the clock read by
  \<^verbatim>\<open>datetime.now().isoformat()\<close>, and Python's \<^verbatim>\<open>str()\<close> of a decoded value, which an
  f-string applies to a spot id taken from a response.
\<close>

record 's environment =
  broker :: "'s \<Rightarrow> request \<Rightarrow> http_result \<times> 's"
  send_ok :: "nat \<Rightarrow> bool"
  now :: string
  py_str :: "json \<Rightarrow> string"

text \<open>The state: the broker's, the \<^verbatim>\<open>manager.active_connections\<close> list (connections
  are numbered), and the effects so far.\<close>

record 's world =
  store :: 's
  active_connections :: "nat list"
  trace :: "effect list"

definition http_call :: "'s environment \<Rightarrow> request \<Rightarrow> 's world \<Rightarrow> http_result \<times> 's world" where
  "http_call env req w =
     (let (res, s') = broker env (store w) req
      in (res, w\<lparr>store := s', trace := trace w @ [Http req res]\<rparr>))"

text \<open>\<^verbatim>\<open>response.raise_for_status()\<close> raises on the codes 400 to 599.\<close>

definition is_error_status :: "nat \<Rightarrow> bool" where
  "is_error_status code = (400 \<le> code \<and> code < 600)"

text \<open>
  \<^verbatim>\<open>response.raise_for_status(); response.json()\<close> after a \<^verbatim>\<open>requests.get\<close>, all three
  inside one \<^verbatim>\<open>try\<close>: \<open>None\<close> when any of them raises.
\<close>

definition get_json :: "http_result \<Rightarrow> json option" where
  "get_json res =
     (case res of
        ConnectionFailed \<Rightarrow> None
      | Response code b \<Rightarrow> if is_error_status code then None else b)"

definition ORION_URL :: string where
  "ORION_URL = ''http://127.0.0.1:1026/ngsi-ld/v1/entities''"

subsection \<open>ConnectionManager\<close>

definition connect :: "nat \<Rightarrow> 's world \<Rightarrow> 's world" where
  "connect websocket w = w\<lparr>active_connections := active_connections w @ [websocket]\<rparr>"

text \<open>\<^verbatim>\<open>list.remove\<close> drops the first occurrence and raises \<^verbatim>\<open>ValueError\<close> without one.\<close>

definition disconnect :: "nat \<Rightarrow> 's world \<Rightarrow> error + 's world" where
  "disconnect websocket w =
     (if websocket \<in> set (active_connections w)
      then Inr (w\<lparr>active_connections := remove1 websocket (active_connections w)\<rparr>)
      else Inl ValueError)"

text \<open>
  \<^verbatim>\<open>
  for connection in self.active_connections:
      await connection.send_json(payload)
  \<close>
  There is no \<^verbatim>\<open>try\<close> around the send: the first send that raises ends the loop.
\<close>

fun send_loop :: "'s environment \<Rightarrow> json \<Rightarrow> nat list \<Rightarrow> 's world \<Rightarrow> (error + unit) \<times> 's world" where
  "send_loop env payload [] w = (Inr (), w)"
| "send_loop env payload (connection # rest) w =
     (if send_ok env connection
      then send_loop env payload rest (w\<lparr>trace := trace w @ [SendJson connection payload True]\<rparr>)
      else (Inl SendError, w\<lparr>trace := trace w @ [SendJson connection payload False]\<rparr>))"

definition dispatch_payload :: "'s environment \<Rightarrow> string \<Rightarrow> json \<Rightarrow> json" where
  "dispatch_payload env spot_id coordinates =
     JObj [(''event'', JStr ''NEW_BOOKING''),
           (''spot_id'', JStr spot_id),
           (''coordinates'', coordinates),
           (''timestamp'', JStr (now env))]"

definition send_coordinates ::
    "'s environment \<Rightarrow> string \<Rightarrow> json \<Rightarrow> 's world \<Rightarrow> (error + unit) \<times> 's world" where
  "send_coordinates env spot_id coordinates w =
     send_loop env (dispatch_payload env spot_id coordinates) (active_connections w) w"

subsection \<open>find_parking_spot\<close>

definition find_parking_spot ::
    "'s environment \<Rightarrow> BookingRequest \<Rightarrow> 's world \<Rightarrow> (error + json) \<times> 's world" where
  "find_parking_spot env preferences w =
     (let (res, w1) =
        http_call env (Request GET (ORION_URL @ ''?type=SmartIndoorParkingSpot'') [] None) w
      in case get_json res of
           None \<Rightarrow> (Inl (HTTPException 500), w1)
         | Some all_spots \<Rightarrow> (and_then (py_iter all_spots) (match_spots preferences), w1))"

subsection \<open>book_parking_spot\<close>

definition status_payload :: "string \<Rightarrow> json" where
  "status_payload v =
     JObj [(''status'', JObj [(''type'', JStr ''Property''), (''value'', JStr v)]),
           (''occupancyModified'',
              JObj [(''type'', JStr ''Property''),
                    (''value'', JObj [(''@type'', JStr ''DateTime''),
                                      (''@value'', JStr ''2023-10-27T12:00:00Z'')])])]"

definition attrs_url :: "string \<Rightarrow> string" where
  "attrs_url spot_id = ''http://localhost:1026/ngsi-ld/v1/entities/'' @ spot_id @ ''/attrs''"

text \<open>
  The \<^verbatim>\<open>try\<close> around \<^verbatim>\<open>requests.patch\<close> and \<^verbatim>\<open>raise_for_status\<close>, shared by the three
  handlers that write a status: an \<^verbatim>\<open>HTTPError\<close> becomes the code 400, any other
  exception the code 500.
\<close>

definition patch_outcome :: "http_result \<Rightarrow> error + unit" where
  "patch_outcome res =
     (case res of
        ConnectionFailed \<Rightarrow> Inl (HTTPException 500)
      | Response code b \<Rightarrow> if is_error_status code then Inl (HTTPException 400) else Inr ())"

text \<open>\<^verbatim>\<open>coords = response['location']['value']['coordinates']\<close>, outside every
  \<^verbatim>\<open>try\<close>.\<close>

definition read_coordinates :: "json \<Rightarrow> error + json" where
  "read_coordinates response =
     and_then (py_getitem response ''location'') (\<lambda>loc.
     and_then (py_getitem loc ''value'') (\<lambda>val.
       py_getitem val ''coordinates''))"

definition book_parking_spot ::
    "'s environment \<Rightarrow> string \<Rightarrow> 's world \<Rightarrow> (error + json) \<times> 's world" where
  "book_parking_spot env spot_id w =
     (let (res, w1) = http_call env (Request GET (ORION_URL @ ''/'' @ spot_id) [] None) w
      in case get_json res of
           None \<Rightarrow> (Inl (HTTPException 500), w1)
         | Some response \<Rightarrow>
             (case read_coordinates response of
                Inl e \<Rightarrow> (Inl e, w1)
              | Inr coords \<Rightarrow>
                  (let (res2, w2) =
                     http_call env
                       (Request PATCH (attrs_url spot_id) [] (Some (status_payload ''occupied''))) w1
                   in case patch_outcome res2 of
                        Inl e \<Rightarrow> (Inl e, w2)
                      | Inr u \<Rightarrow>
                          (case send_coordinates env spot_id coords w2 of
                             (Inl e, w3) \<Rightarrow> (Inl e, w3)
                           | (Inr u, w3) \<Rightarrow>
                               (Inr (JObj [(''status'', JStr ''success''),
                                           (''message'', JStr (''Spot '' @ spot_id
                                              @ '' is now locked. Other users will not see it.''))]),
                                w3)))))"

subsection \<open>create_parking_garage\<close>


subsection \<open>clear_parking_spot\<close>

text \<open>\<^verbatim>\<open>str(n)\<close> of a length: its decimal digits.\<close>

function str_of_nat :: "nat \<Rightarrow> string" where
  "str_of_nat n =
     (if n < 10 then [''0123456789'' ! n]
      else str_of_nat (n div 10) @ [''0123456789'' ! (n mod 10)])"
  by pat_completeness auto
termination
  by (relation "measure id") auto

text \<open>
  The loop of lines 262 to 302: a spot whose status is not \<^verbatim>\<open>"free"\<close> is patched, and a
  patch that fails ends the handler.
\<close>

fun clear_loop :: "'s environment \<Rightarrow> json list \<Rightarrow> 's world \<Rightarrow> (error + unit) \<times> 's world" where
  "clear_loop env [] w = (Inr (), w)"
| "clear_loop env (spot # rest) w =
     (case and_then (py_get spot ''id'') (\<lambda>spot_id.
           and_then (py_get spot ''status'') (\<lambda>st.
           and_then (py_get spot ''category'') (\<lambda>cat.
             Inr (spot_id, get_clean_value st, get_clean_value cat)))) of
        Inl e \<Rightarrow> (Inl e, w)
      | Inr (spot_id, status, categories) \<Rightarrow>
          if status \<noteq> JStr ''free''
          then (let (res, w1) =
                  http_call env
                    (Request PATCH (attrs_url (py_str env spot_id)) []
                       (Some (status_payload ''free''))) w
                in case patch_outcome res of
                     Inl e \<Rightarrow> (Inl e, w1)
                   | Inr u \<Rightarrow> clear_loop env rest w1)
          else clear_loop env rest w)"

definition clear_parking_spot :: "'s environment \<Rightarrow> 's world \<Rightarrow> (error + json) \<times> 's world" where
  "clear_parking_spot env w =
     (let (res, w1) =
        http_call env (Request GET (ORION_URL @ ''?type=SmartIndoorParkingSpot'') [] None) w
      in case get_json res of
           None \<Rightarrow> (Inl (HTTPException 500), w1)
         | Some all_spots \<Rightarrow>
             (case py_iter all_spots of
                Inl e \<Rightarrow> (Inl e, w1)
              | Inr spots \<Rightarrow>
                  (case clear_loop env spots w1 of
                     (Inl e, w2) \<Rightarrow> (Inl e, w2)
                   | (Inr u, w2) \<Rightarrow>
                       (Inr (JObj [(''status'', JStr ''success''),
                                   (''message'', JStr (str_of_nat (length spots)
                                      @ '' Spots are now free.''))]), w2))))"

subsection \<open>clear_single_parking_spot\<close>


subsection \<open>delete_garage\<close>



section \<open>Vocabulary of the properties\<close>

text \<open>What the matching pass reads of a spot: its unwrapped status and categories.\<close>

definition status_of :: "json \<Rightarrow> json" where
  "status_of spot =
     (case py_get spot ''status'' of Inr st \<Rightarrow> get_clean_value st | Inl e \<Rightarrow> JNull)"

definition categories_of :: "json \<Rightarrow> json" where
  "categories_of spot =
     (case py_get spot ''category'' of Inr cat \<Rightarrow> get_clean_value cat | Inl e \<Rightarrow> JNull)"

text \<open>A spot carries a tag when the test \<^verbatim>\<open>tag in categories\<close> of the loop is true.\<close>

definition carries :: "string \<Rightarrow> json \<Rightarrow> bool" where
  "carries tag spot = (py_in tag (categories_of spot) = Inr True)"

definition special_tags :: "string list" where
  "special_tags = [''forElectricCharging'', ''forDisabled'', ''forWomen'']"

definition tag_count :: "json \<Rightarrow> nat" where
  "tag_count spot = length (filter (\<lambda>tag. carries tag spot) special_tags)"

text \<open>A spot is eligible for a request when the loop appends it to
  \<^verbatim>\<open>suitable_spots\<close>; it raises when its iteration ends in an exception.\<close>

definition eligible :: "BookingRequest \<Rightarrow> json \<Rightarrow> bool" where
  "eligible preferences spot =
     (case examine_spot preferences spot of Inr (Some w) \<Rightarrow> True | _ \<Rightarrow> False)"

definition raises :: "BookingRequest \<Rightarrow> json \<Rightarrow> bool" where
  "raises preferences spot =
     (case examine_spot preferences spot of Inl e \<Rightarrow> True | Inr r \<Rightarrow> False)"

text \<open>The list the loop builds when no iteration raises.\<close>

fun suitable_of :: "BookingRequest \<Rightarrow> json list \<Rightarrow> (json \<times> nat) list" where
  "suitable_of p [] = []"
| "suitable_of p (spot # rest) =
     (case examine_spot p spot of
        Inr (Some w) \<Rightarrow> (spot, w) # suitable_of p rest
      | _ \<Rightarrow> suitable_of p rest)"

text \<open>The effects a handler added to the trace, and the kinds of effect.\<close>

definition new_effects :: "'s world \<Rightarrow> 's world \<Rightarrow> effect list" where
  "new_effects w w' = drop (length (trace w)) (trace w')"

fun is_send :: "effect \<Rightarrow> bool" where
  "is_send (SendJson c payload ok) = True"
| "is_send (Http req res) = False"

text \<open>The store confirms a write when the \<^verbatim>\<open>try\<close> around the patch raises nothing.\<close>

fun confirmed_write :: "string \<Rightarrow> effect \<Rightarrow> bool" where
  "confirmed_write spot_id (Http req res) =
     (req = Request PATCH (attrs_url spot_id) [] (Some (status_payload ''occupied''))
      \<and> patch_outcome res = Inr ())"
| "confirmed_write spot_id (SendJson c payload ok) = False"

fun rejected_write :: "string \<Rightarrow> effect \<Rightarrow> bool" where
  "rejected_write spot_id (Http req res) =
     (req = Request PATCH (attrs_url spot_id) [] (Some (status_payload ''occupied''))
      \<and> patch_outcome res \<noteq> Inr ())"
| "rejected_write spot_id (SendJson c payload ok) = False"

text \<open>The two requests of \<^verbatim>\<open>book_parking_spot\<close>, and the sends of one broadcast over a
  list of connections: one per connection up to and including the first that fails.\<close>

definition reread_request :: "string \<Rightarrow> request" where
  "reread_request spot_id = Request GET (ORION_URL @ ''/'' @ spot_id) [] None"

definition occupy_request :: "string \<Rightarrow> request" where
  "occupy_request spot_id =
     Request PATCH (attrs_url spot_id) [] (Some (status_payload ''occupied''))"

fun attempts :: "'s environment \<Rightarrow> json \<Rightarrow> nat list \<Rightarrow> effect list" where
  "attempts env payload [] = []"
| "attempts env payload (c # cs) =
     (if send_ok env c then SendJson c payload True # attempts env payload cs
      else [SendJson c payload False])"

text \<open>
  The write of one booking as the store sees it: from the state \<open>s\<close>, the re-read and then
  the \<^verbatim>\<open>PATCH\<close> of the status \<^verbatim>\<open>occupied\<close>, with the answer to the \<^verbatim>\<open>PATCH\<close> and the
  state it leaves. The store rejects a write when it answers with an error status.
\<close>

definition booking_write :: "'s environment \<Rightarrow> string \<Rightarrow> 's \<Rightarrow> http_result \<times> 's" where
  "booking_write env spot_id s =
     broker env (snd (broker env s (reread_request spot_id))) (occupy_request spot_id)"

fun rejects :: "http_result \<Rightarrow> bool" where
  "rejects (Response code b) = is_error_status code"
| "rejects ConnectionFailed = False"

text \<open>The requests of the other handlers, and what the properties read off an effect.\<close>

definition listing_request :: request where
  "listing_request = Request GET (ORION_URL @ ''?type=SmartIndoorParkingSpot'') [] None"

definition free_request :: "string \<Rightarrow> request" where
  "free_request spot_id = Request PATCH (attrs_url spot_id) [] (Some (status_payload ''free''))"



fun is_patch :: "effect \<Rightarrow> bool" where
  "is_patch (Http req res) = (verb req = PATCH)"
| "is_patch (SendJson c payload ok) = False"

fun http_urls :: "effect list \<Rightarrow> string list" where
  "http_urls [] = []"
| "http_urls (Http req res # es) = url req # http_urls es"
| "http_urls (SendJson c payload ok # es) = http_urls es"





section \<open>A broker and a car park for the examples\<close>

text \<open>
  Modelled from the spec: the context broker is an external service, of which the
  repository holds no code; sections 4.2, 5 and 6 of the specification give its interface
  and its single-writer semantics. The broker below keeps the entities by id and answers
  the two reads of the handlers. A \<^verbatim>\<open>PATCH\<close> of an unknown id is answered 404, a
  \<^verbatim>\<open>PATCH\<close> that sets the status \<^verbatim>\<open>occupied\<close> on an entity that is not free is rejected
  (409), and any other \<^verbatim>\<open>PATCH\<close> is merged into the entity (204). A \<^verbatim>\<open>DELETE\<close> removes
  the entity. It serves the examples only; the theorems hold for every broker.
\<close>

fun merge_attrs :: "json \<Rightarrow> json \<Rightarrow> json" where
  "merge_attrs (JObj attrs) (JObj patch) =
     JObj (map (\<lambda>kv. (fst kv, case map_of patch (fst kv) of Some v \<Rightarrow> v | None \<Rightarrow> snd kv)) attrs
           @ filter (\<lambda>kv. map_of attrs (fst kv) = None) patch)"
| "merge_attrs entity patch = entity"

definition entity_broker ::
    "(string \<times> json) list \<Rightarrow> request \<Rightarrow> http_result \<times> (string \<times> json) list" where
  "entity_broker entities req =
     (case verb req of
        GET \<Rightarrow>
          if url req = ORION_URL @ ''?type=SmartIndoorParkingSpot''
          then (Response 200 (Some (JArr (map snd entities))), entities)
          else (case find (\<lambda>ie. url req = ORION_URL @ ''/'' @ fst ie) entities of
                  Some ie \<Rightarrow> (Response 200 (Some (snd ie)), entities)
                | None \<Rightarrow> (Response 404 None, entities))
      | PATCH \<Rightarrow>
          (case find (\<lambda>ie. url req = attrs_url (fst ie)) entities of
             Some ie \<Rightarrow>
               (case body req of
                  Some b \<Rightarrow>
                    if status_of b = JStr ''occupied'' \<and> status_of (snd ie) \<noteq> JStr ''free''
                    then (Response 409 None, entities)
                    else (Response 204 None,
                          map (\<lambda>je. if fst je = fst ie then (fst je, merge_attrs (snd je) b)
                                     else je) entities)
                | None \<Rightarrow> (Response 400 None, entities))
           | None \<Rightarrow> (Response 404 None, entities))
      | DELETE \<Rightarrow>
          (case find (\<lambda>ie. url req = ORION_URL @ ''/'' @ fst ie) entities of
             Some ie \<Rightarrow> (Response 204 None, filter (\<lambda>je. fst je \<noteq> fst ie) entities)
           | None \<Rightarrow> (Response 404 None, entities))
      | POST \<Rightarrow> (Response 201 None, entities))"

text \<open>Entities in the broker's normalised form: each attribute wrapped with its value.\<close>

definition property :: "json \<Rightarrow> json" where
  "property v = JObj [(''type'', JStr ''Property''), (''value'', v)]"

definition parking_spot :: "string \<Rightarrow> string \<Rightarrow> string list \<Rightarrow> json" where
  "parking_spot spot_id status categories =
     JObj [(''id'', JStr spot_id),
           (''type'', JStr ''SmartIndoorParkingSpot''),
           (''status'', property (JStr status)),
           (''category'', property (JArr (map JStr categories))),
           (''location'',
              JObj [(''type'', JStr ''GeoProperty''),
                    (''value'', JObj [(''type'', JStr ''Point''),
                                      (''coordinates'', JArr [JNum 4, JNum 7])])])]"

text \<open>The same without the attributes a claim is about.\<close>

definition spot_without_category :: "string \<Rightarrow> json" where
  "spot_without_category spot_id =
     JObj [(''id'', JStr spot_id),
           (''type'', JStr ''SmartIndoorParkingSpot''),
           (''status'', property (JStr ''free''))]"

definition spot_without_location :: "string \<Rightarrow> json" where
  "spot_without_location spot_id =
     JObj [(''id'', JStr spot_id),
           (''type'', JStr ''SmartIndoorParkingSpot''),
           (''status'', property (JStr ''free'')),
           (''category'', property (JArr []))]"

text \<open>\<^verbatim>\<open>str()\<close> on the values whose text does not depend on how Python prints numbers
  or quotes strings: a string is its own text. Nothing is said of the other values; the
  ids of the examples are strings.\<close>

fun id_text :: "json \<Rightarrow> string" where
  "id_text (JStr s) = s"
| "id_text JNull = ''None''"
| "id_text (JBool True) = ''True''"
| "id_text (JBool False) = ''False''"

definition car_park :: "(string \<times> json) list" where
  "car_park =
     [(''C'', parking_spot ''C'' ''free'' [''forDisabled'', ''forElectricCharging'']),
      (''O'', parking_spot ''O'' ''occupied'' []),
      (''B'', parking_spot ''B'' ''free'' [''forDisabled'']),
      (''D'', parking_spot ''D'' ''free'' [''forDisabled'']),
      (''A'', parking_spot ''A'' ''free'' []),
      (''E'', parking_spot ''E'' ''free'' [''forElectricCharging'']),
      (''F'', parking_spot ''F'' ''free'' [''forElectricCharging'', ''forDisabled'', ''forWomen''])]"

definition example_env :: "(string \<times> json) list environment" where
  "example_env =
     \<lparr>broker = entity_broker, send_ok = (\<lambda>c. True), now = ''2024-05-01T09:30:00'',
      py_str = id_text\<rparr>"

definition example_world :: "(string \<times> json) list \<Rightarrow> nat list \<Rightarrow> (string \<times> json) list world" where
  "example_world entities connections =
     \<lparr>store = entities, active_connections = connections, trace = []\<rparr>"

definition wants :: "bool \<Rightarrow> bool \<Rightarrow> bool \<Rightarrow> BookingRequest" where
  "wants disabled female ev =
     \<lparr>requires_disabled = disabled, requires_female = female, requires_ev = ev\<rparr>"

text \<open>An environment in which every send on the connection 1 fails.\<close>

definition flaky_env :: "(string \<times> json) list environment" where
  "flaky_env = example_env\<lparr>send_ok := (\<lambda>c. c \<noteq> 1)\<rparr>"




section \<open>Properties of the matching pass\<close>

subsection \<open>Sequencing, one spot, the two loops\<close>

lemma and_then_Inl [simp]: "and_then (Inl e) f = Inl e"
  by (simp add: and_then_def)

lemma and_then_Inr [simp]: "and_then (Inr x) f = f x"
  by (simp add: and_then_def)

lemma and_then_eq_Inr: "and_then m f = Inr y \<longleftrightarrow> (\<exists>x. m = Inr x \<and> f x = Inr y)"
  by (cases m) simp_all

lemma py_in_total: "py_in a c = Inr x \<Longrightarrow> \<exists>y. py_in b c = Inr y"
  by (cases c) simp_all

lemma examine_spot_Some:
  assumes "examine_spot p spot = Inr (Some w)"
  shows "status_of spot = JStr ''free'' \<and> w = tag_count spot
    \<and> (requires_ev p \<longrightarrow> carries ''forElectricCharging'' spot)
    \<and> (requires_disabled p \<longrightarrow> carries ''forDisabled'' spot)
    \<and> (requires_female p \<longrightarrow> carries ''forWomen'' spot)
    \<and> (\<not> requires_disabled p \<and> \<not> requires_female p \<longrightarrow>
          \<not> carries ''forDisabled'' spot \<and> \<not> carries ''forWomen'' spot)"
  using assms
  by (cases spot)
     (auto simp: examine_spot_def and_then_eq_Inr status_of_def categories_of_def carries_def
           tag_count_def special_tags_def Let_def split: if_splits)

lemma tag_count_le: "tag_count spot \<le> 3"
  unfolding tag_count_def special_tags_def
  by (rule order_trans [OF length_filter_le]) simp


lemma scan_spots_Inr:
  "scan_spots p spots = Inr suit \<Longrightarrow> suit = suitable_of p spots"
  by (induction spots arbitrary: suit)
     (auto simp: and_then_eq_Inr split: option.splits)

lemma scan_spots_total:
  "\<forall>s\<in>set spots. \<exists>r. examine_spot p s = Inr r \<Longrightarrow> \<exists>suit. scan_spots p spots = Inr suit"
  by (induction spots) (auto simp: and_then_eq_Inr)

lemma scan_spots_raises:
  "examine_spot p s = Inl e \<Longrightarrow> s \<in> set spots \<Longrightarrow> \<exists>e'. scan_spots p spots = Inl e'"
proof (induction spots)
  case Nil
  then show ?case by simp
next
  case (Cons a spots)
  show ?case
  proof (cases "examine_spot p a")
    case (Inl e1)
    then show ?thesis by simp
  next
    case (Inr r)
    with Cons obtain e' where "scan_spots p spots = Inl e'" by auto
    with Inr show ?thesis by simp
  qed
qed

lemma suitable_of_skip:
  "\<not> (\<exists>v. examine_spot p a = Inr (Some v)) \<Longrightarrow> suitable_of p (a # spots) = suitable_of p spots"
  by (auto split: sum.splits option.splits)

lemma suitable_of_split:
  "suitable_of p spots = ys1 @ (s, w) # ys2 \<Longrightarrow>
   \<exists>pre post. spots = pre @ s # post \<and> examine_spot p s = Inr (Some w)
      \<and> suitable_of p pre = ys1 \<and> suitable_of p post = ys2"
proof (induction spots arbitrary: ys1)
  case Nil
  then show ?case by simp
next
  case (Cons a spots)
  show ?case
  proof (cases "\<exists>v. examine_spot p a = Inr (Some v)")
    case True
    then obtain v where v: "examine_spot p a = Inr (Some v)" by blast
    show ?thesis
    proof (cases ys1)
      case Nil
      with Cons.prems v have "a # spots = [] @ s # spots \<and> examine_spot p s = Inr (Some w)
          \<and> suitable_of p [] = ys1 \<and> suitable_of p spots = ys2"
        by simp
      then show ?thesis by blast
    next
      case (Cons y ys1')
      with Cons.prems v have y: "y = (a, v)" and rest: "suitable_of p spots = ys1' @ (s, w) # ys2"
        by simp_all
      from Cons.IH [OF rest] obtain pre post where
        "spots = pre @ s # post" "examine_spot p s = Inr (Some w)"
        "suitable_of p pre = ys1'" "suitable_of p post = ys2" by blast
      with v y Cons have "a # spots = (a # pre) @ s # post \<and> examine_spot p s = Inr (Some w)
          \<and> suitable_of p (a # pre) = ys1 \<and> suitable_of p post = ys2"
        by simp
      then show ?thesis by blast
    qed
  next
    case False
    from suitable_of_skip [OF False, of spots] Cons.prems
    have "suitable_of p spots = ys1 @ (s, w) # ys2"
      by simp
    from Cons.IH [OF this] obtain pre post where
      pp: "spots = pre @ s # post" "examine_spot p s = Inr (Some w)"
      "suitable_of p pre = ys1" "suitable_of p post = ys2" by blast
    from False have "suitable_of p (a # pre) = suitable_of p pre"
      by (rule suitable_of_skip)
    with pp have "a # spots = (a # pre) @ s # post \<and> examine_spot p s = Inr (Some w)
          \<and> suitable_of p (a # pre) = ys1 \<and> suitable_of p post = ys2"
      by simp
    then show ?thesis by blast
  qed
qed

lemma suitable_of_mem:
  "(t, v) \<in> set (suitable_of p spots) \<longleftrightarrow> t \<in> set spots \<and> examine_spot p t = Inr (Some v)"
  by (induction spots) (auto split: sum.splits option.splits)

lemma pick_best_keep:
  "\<forall>(t, v)\<in>set xs. m \<le> enat v \<Longrightarrow> pick_best xs b m = b"
  by (induction xs arbitrary: b m) auto

lemma pick_best_first_min:
  "\<exists>(t, v)\<in>set xs. enat v < m \<Longrightarrow>
   \<exists>pre s w post. xs = pre @ (s, w) # post \<and> pick_best xs b m = Some s \<and> enat w < m
      \<and> (\<forall>(t, v)\<in>set pre. w < v) \<and> (\<forall>(t, v)\<in>set post. w \<le> v)"
proof (induction xs arbitrary: b m)
  case Nil
  then show ?case by simp
next
  case (Cons x xs)
  obtain s0 w0 where x: "x = (s0, w0)" by (cases x)
  show ?case
  proof (cases "enat w0 < m")
    case True
    show ?thesis
    proof (cases "\<exists>(t, v)\<in>set xs. enat v < enat w0")
      case True
      from Cons.IH [OF this, of "Some s0"] obtain pre s w post where
        h: "xs = pre @ (s, w) # post" "pick_best xs (Some s0) (enat w0) = Some s"
           "enat w < enat w0" "\<forall>(t, v)\<in>set pre. w < v" "\<forall>(t, v)\<in>set post. w \<le> v"
        by blast
      from h(3) \<open>enat w0 < m\<close> have "enat w < m" by (rule less_trans)
      with h x \<open>enat w0 < m\<close>
      have "x # xs = ((s0, w0) # pre) @ (s, w) # post \<and> pick_best (x # xs) b m = Some s
          \<and> enat w < m \<and> (\<forall>(t, v)\<in>set ((s0, w0) # pre). w < v) \<and> (\<forall>(t, v)\<in>set post. w \<le> v)"
        by simp
      then show ?thesis by blast
    next
      case False
      then have ge: "\<forall>(t, v)\<in>set xs. enat w0 \<le> enat v" by (auto simp: not_less)
      from pick_best_keep [OF this] have "pick_best xs (Some s0) (enat w0) = Some s0" .
      with x True ge
      have "x # xs = [] @ (s0, w0) # xs \<and> pick_best (x # xs) b m = Some s0
          \<and> enat w0 < m \<and> (\<forall>(t, v)\<in>set []. w0 < v) \<and> (\<forall>(t, v)\<in>set xs. w0 \<le> v)"
        by simp
      then show ?thesis by blast
    qed
  next
    case False
    with Cons.prems x have "\<exists>(t, v)\<in>set xs. enat v < m" by auto
    from Cons.IH [OF this, of b] obtain pre s w post where
      h: "xs = pre @ (s, w) # post" "pick_best xs b m = Some s"
         "enat w < m" "\<forall>(t, v)\<in>set pre. w < v" "\<forall>(t, v)\<in>set post. w \<le> v"
      by blast
    from False have "m \<le> enat w0" by (simp add: not_less)
    with h(3) have "enat w < enat w0" by (rule less_le_trans)
    then have "w < w0" by simp
    with x False h
    have "x # xs = ((s0, w0) # pre) @ (s, w) # post \<and> pick_best (x # xs) b m = Some s
        \<and> enat w < m \<and> (\<forall>(t, v)\<in>set ((s0, w0) # pre). w < v) \<and> (\<forall>(t, v)\<in>set post. w \<le> v)"
      by simp
    then show ?thesis by blast
  qed
qed

lemma eligible_iff: "eligible p s \<longleftrightarrow> (\<exists>w. examine_spot p s = Inr (Some w))"
  by (auto simp: eligible_def split: sum.splits option.splits)

lemma raises_iff: "\<not> raises p s \<longleftrightarrow> (\<exists>r. examine_spot p s = Inr r)"
  by (auto simp: raises_def split: sum.splits)

lemma eligible_weight: "eligible p s \<Longrightarrow> examine_spot p s = Inr (Some (tag_count s))"
  using examine_spot_Some [of p s] by (auto simp: eligible_iff)

lemma match_spots_selected:
  assumes "scan_spots p spots = Inr suit" and "suit \<noteq> []"
  shows "\<exists>pre best post. spots = pre @ best # post \<and> eligible p best
     \<and> (\<forall>t\<in>set pre. eligible p t \<longrightarrow> tag_count best < tag_count t)
     \<and> (\<forall>t\<in>set post. eligible p t \<longrightarrow> tag_count best \<le> tag_count t)
     \<and> match_spots p spots = spot_response best"
proof -
  from assms(1) have suit: "suit = suitable_of p spots" by (rule scan_spots_Inr)
  from assms(2) obtain t0 v0 where "(t0, v0) \<in> set suit" by (cases suit) auto
  then have "\<exists>(t, v)\<in>set suit. enat v < \<infinity>" by auto
  from pick_best_first_min [OF this, of None] obtain ys1 best w ys2 where
    h: "suit = ys1 @ (best, w) # ys2" "pick_best suit None \<infinity> = Some best"
       "\<forall>(t, v)\<in>set ys1. w < v" "\<forall>(t, v)\<in>set ys2. w \<le> v"
    by blast
  from h(1) suit have "suitable_of p spots = ys1 @ (best, w) # ys2" by simp
  from suitable_of_split [OF this] obtain pre post where
    sp: "spots = pre @ best # post" "examine_spot p best = Inr (Some w)"
        "suitable_of p pre = ys1" "suitable_of p post = ys2"
    by blast
  from sp(2) have el: "eligible p best" by (auto simp: eligible_iff)
  from sp(2) examine_spot_Some [of p best w] have w: "w = tag_count best" by simp
  have pre: "tag_count best < tag_count t" if "t \<in> set pre" "eligible p t" for t
  proof -
    from that(2) have "examine_spot p t = Inr (Some (tag_count t))" by (rule eligible_weight)
    with that(1) have "(t, tag_count t) \<in> set ys1"
      using suitable_of_mem [of t "tag_count t" p pre] sp(3) by simp
    with h(3) w show ?thesis by auto
  qed
  have post: "tag_count best \<le> tag_count t" if "t \<in> set post" "eligible p t" for t
  proof -
    from that(2) have "examine_spot p t = Inr (Some (tag_count t))" by (rule eligible_weight)
    with that(1) have "(t, tag_count t) \<in> set ys2"
      using suitable_of_mem [of t "tag_count t" p post] sp(4) by simp
    with h(4) w show ?thesis by auto
  qed
  from assms h(2) have "match_spots p spots = spot_response best"
    by (simp add: match_spots_def)
  with sp(1) el pre post show ?thesis by blast
qed

lemma find_parking_spot_body:
  assumes "fst (broker env (store w)
             (Request GET (ORION_URL @ ''?type=SmartIndoorParkingSpot'') [] None)) = res"
      and "get_json res = Some (JArr spots)"
  shows "fst (find_parking_spot env p w) = match_spots p spots"
  using assms
  by (auto simp: find_parking_spot_def http_call_def Let_def split: prod.splits)


lemmas example_defs =
  example_env_def example_world_def car_park_def parking_spot_def property_def wants_def
  entity_broker_def ORION_URL_def attrs_url_def get_json_def is_error_status_def
  spot_without_category_def spot_without_location_def

lemmas matching_defs =
  examine_spot_def and_then_def get_clean_value_def dict_get_def eligible_def raises_def
  status_of_def categories_of_def carries_def tag_count_def special_tags_def

lemma spot_response_dict: "spot_response best = Inr resp \<Longrightarrow> py_get resp ''status'' = Inr (JStr ''success'')"
  by (auto simp: spot_response_def and_then_eq_Inr Let_def dict_get_def)

lemma no_spot_status: "py_get no_spot_response ''status'' = Inr (JStr ''failure'')"
  by (simp add: no_spot_response_def dict_get_def)

lemma eligible_generic_ev_only:
  assumes "\<not> requires_disabled p" "\<not> requires_female p" "status_of e = JStr ''free''"
    "carries ''forElectricCharging'' e" "\<not> carries ''forDisabled'' e" "\<not> carries ''forWomen'' e"
  shows "examine_spot p e = Inr (Some 1)"
proof -
  from assms(3) obtain kvs where e: "e = JObj kvs"
    by (cases e) (simp_all add: status_of_def)
  from assms(4) have ev: "py_in ''forElectricCharging'' (categories_of e) = Inr True"
    by (simp add: carries_def)
  from py_in_total [OF ev] obtain d where d: "py_in ''forDisabled'' (categories_of e) = Inr d" ..
  from py_in_total [OF ev] obtain f where f: "py_in ''forWomen'' (categories_of e) = Inr f" ..
  from d assms(5) have "\<not> d" by (simp add: carries_def)
  moreover from f assms(6) have "\<not> f" by (simp add: carries_def)
  ultimately show ?thesis
    using assms(1-3) e ev d f
    by (simp add: examine_spot_def status_of_def categories_of_def Let_def)
qed

lemmas handler_defs =
  find_parking_spot_def http_call_def match_spots_def spot_response_def


subsection \<open>The selected spot meets the request\<close>

text \<open>
  C3. When the broker answers the listing with the spots \<open>spots\<close> and
  \<^verbatim>\<open>find_parking_spot\<close> returns a success response, the response is built from a spot
  \<open>best\<close> of that list whose status is \<^verbatim>\<open>"free"\<close>, which carries
  \<^verbatim>\<open>forElectricCharging\<close> if \<^verbatim>\<open>requires_ev\<close> is set, \<^verbatim>\<open>forDisabled\<close> if
  \<^verbatim>\<open>requires_disabled\<close> is set, \<^verbatim>\<open>forWomen\<close> if \<^verbatim>\<open>requires_female\<close> is set, and
  which carries neither \<^verbatim>\<open>forDisabled\<close> nor \<^verbatim>\<open>forWomen\<close> when both
  \<^verbatim>\<open>requires_disabled\<close> and \<^verbatim>\<open>requires_female\<close> are false. For such a generic request a
  free spot that carries \<^verbatim>\<open>forElectricCharging\<close> and neither of the two reserved tags is
  eligible.
\<close>

theorem find_parking_spot_respects_constraints:
  "(get_json (fst (broker env (store w)
        (Request GET (ORION_URL @ ''?type=SmartIndoorParkingSpot'') [] None)))
      = Some (JArr spots)
     \<and> fst (find_parking_spot env p w) = Inr resp
     \<and> py_get resp ''status'' = Inr (JStr ''success'')
    \<longrightarrow> (\<exists>best\<in>set spots. spot_response best = Inr resp
          \<and> status_of best = JStr ''free''
          \<and> (requires_ev p \<longrightarrow> carries ''forElectricCharging'' best)
          \<and> (requires_disabled p \<longrightarrow> carries ''forDisabled'' best)
          \<and> (requires_female p \<longrightarrow> carries ''forWomen'' best)
          \<and> (\<not> requires_disabled p \<and> \<not> requires_female p \<longrightarrow>
                \<not> carries ''forDisabled'' best \<and> \<not> carries ''forWomen'' best)))
   \<and> (\<not> requires_disabled p \<and> \<not> requires_female p \<and> status_of e = JStr ''free''
        \<and> carries ''forElectricCharging'' e \<and> \<not> carries ''forDisabled'' e
        \<and> \<not> carries ''forWomen'' e
      \<longrightarrow> eligible p e)"
proof (intro conjI impI)
  assume a: "get_json (fst (broker env (store w)
        (Request GET (ORION_URL @ ''?type=SmartIndoorParkingSpot'') [] None)))
      = Some (JArr spots)
     \<and> fst (find_parking_spot env p w) = Inr resp
     \<and> py_get resp ''status'' = Inr (JStr ''success'')"
  then have body: "fst (find_parking_spot env p w) = match_spots p spots"
    using find_parking_spot_body [OF refl] by blast
  with a have m: "match_spots p spots = Inr resp" by simp
  then obtain suit where scan: "scan_spots p spots = Inr suit"
    by (auto simp: match_spots_def and_then_eq_Inr)
  have "suit \<noteq> []"
  proof
    assume "suit = []"
    with m scan have "resp = no_spot_response" by (simp add: match_spots_def)
    with a no_spot_status show False by simp
  qed
  from match_spots_selected [OF scan this] obtain pre best post where
    h: "spots = pre @ best # post" "eligible p best" "match_spots p spots = spot_response best"
    by blast
  from h(2) obtain wt where "examine_spot p best = Inr (Some wt)" by (auto simp: eligible_iff)
  from examine_spot_Some [OF this] h(1) h(3) m
  show "\<exists>best\<in>set spots. spot_response best = Inr resp
          \<and> status_of best = JStr ''free''
          \<and> (requires_ev p \<longrightarrow> carries ''forElectricCharging'' best)
          \<and> (requires_disabled p \<longrightarrow> carries ''forDisabled'' best)
          \<and> (requires_female p \<longrightarrow> carries ''forWomen'' best)
          \<and> (\<not> requires_disabled p \<and> \<not> requires_female p \<longrightarrow>
                \<not> carries ''forDisabled'' best \<and> \<not> carries ''forWomen'' best)"
    by (intro bexI [of _ best]) simp_all
next
  assume "\<not> requires_disabled p \<and> \<not> requires_female p \<and> status_of e = JStr ''free''
        \<and> carries ''forElectricCharging'' e \<and> \<not> carries ''forDisabled'' e
        \<and> \<not> carries ''forWomen'' e"
  then have "examine_spot p e = Inr (Some 1)" by (intro eligible_generic_ev_only) simp_all
  then show "eligible p e" by (simp add: eligible_def)
qed

text \<open>The theorem at a request for all three categories, answered with the spot F, and
  at a generic request, answered with the spot A while the spot E, tagged for charging
  only, is eligible.\<close>

theorem find_parking_spot_respects_constraints_witness:
  "get_json (fst (broker example_env (store (example_world car_park [1]))
       (Request GET (ORION_URL @ ''?type=SmartIndoorParkingSpot'') [] None)))
     = Some (JArr (map snd car_park))
   \<and> fst (find_parking_spot example_env (wants True True True) (example_world car_park [1]))
       = spot_response (parking_spot ''F'' ''free'' [''forElectricCharging'', ''forDisabled'', ''forWomen''])
   \<and> (\<exists>best. best \<in> set (map snd car_park)
        \<and> spot_response best
            = spot_response (parking_spot ''F'' ''free'' [''forElectricCharging'', ''forDisabled'', ''forWomen''])
        \<and> status_of best = JStr ''free''
        \<and> carries ''forElectricCharging'' best \<and> carries ''forDisabled'' best
        \<and> carries ''forWomen'' best)
   \<and> fst (find_parking_spot example_env (wants False False False) (example_world car_park [1]))
       = spot_response (parking_spot ''A'' ''free'' [])
   \<and> (\<exists>best. best \<in> set (map snd car_park)
        \<and> spot_response best = spot_response (parking_spot ''A'' ''free'' [])
        \<and> status_of best = JStr ''free''
        \<and> \<not> carries ''forDisabled'' best \<and> \<not> carries ''forWomen'' best)
   \<and> status_of (parking_spot ''E'' ''free'' [''forElectricCharging'']) = JStr ''free''
   \<and> carries ''forElectricCharging'' (parking_spot ''E'' ''free'' [''forElectricCharging''])
   \<and> eligible (wants False False False) (parking_spot ''E'' ''free'' [''forElectricCharging''])"
proof -
  let ?W = "example_world car_park [1]"
  let ?F = "parking_spot ''F'' ''free'' [''forElectricCharging'', ''forDisabled'', ''forWomen'']"
  let ?A = "parking_spot ''A'' ''free'' []"
  let ?E = "parking_spot ''E'' ''free'' [''forElectricCharging'']"
  have a: "get_json (fst (broker example_env (store ?W)
       (Request GET (ORION_URL @ ''?type=SmartIndoorParkingSpot'') [] None)))
     = Some (JArr (map snd car_park))"
    by (simp add: example_defs)
  have rF: "spot_response ?F = Inr (JObj [(''status'', JStr ''success''),
        (''assigned_spot_id'', JStr ''F''), (''spot_number'', JNull),
        (''coordinates'', JArr [JNum 4, JNum 7]),
        (''message'', JStr ''Spot reserved successfully.'')])"
    by (simp add: spot_response_def example_defs matching_defs)
  have rA: "spot_response ?A = Inr (JObj [(''status'', JStr ''success''),
        (''assigned_spot_id'', JStr ''A''), (''spot_number'', JNull),
        (''coordinates'', JArr [JNum 4, JNum 7]),
        (''message'', JStr ''Spot reserved successfully.'')])"
    by (simp add: spot_response_def example_defs matching_defs)
  have fF: "fst (find_parking_spot example_env (wants True True True) ?W) = spot_response ?F"
    unfolding rF by (simp add: handler_defs example_defs matching_defs)
  have fA: "fst (find_parking_spot example_env (wants False False False) ?W) = spot_response ?A"
    unfolding rA by (simp add: handler_defs example_defs matching_defs)
  have pT: "requires_ev (wants True True True)" "requires_disabled (wants True True True)"
    "requires_female (wants True True True)"
    by (simp_all add: wants_def)
  have pF: "\<not> requires_disabled (wants False False False)"
    "\<not> requires_female (wants False False False)"
    by (simp_all add: wants_def)
  have E: "status_of ?E = JStr ''free''" "carries ''forElectricCharging'' ?E"
    "\<not> carries ''forDisabled'' ?E" "\<not> carries ''forWomen'' ?E"
    by (simp_all add: example_defs matching_defs)
  have sF: "py_get (JObj [(''status'', JStr ''success''),
        (''assigned_spot_id'', JStr ''F''), (''spot_number'', JNull),
        (''coordinates'', JArr [JNum 4, JNum 7]),
        (''message'', JStr ''Spot reserved successfully.'')]) ''status'' = Inr (JStr ''success'')"
    by (simp add: dict_get_def)
  have sA: "py_get (JObj [(''status'', JStr ''success''),
        (''assigned_spot_id'', JStr ''A''), (''spot_number'', JNull),
        (''coordinates'', JArr [JNum 4, JNum 7]),
        (''message'', JStr ''Spot reserved successfully.'')]) ''status'' = Inr (JStr ''success'')"
    by (simp add: dict_get_def)
  from find_parking_spot_respects_constraints
         [of example_env ?W "map snd car_park" "wants True True True" _ ?E]
       a fF [unfolded rF] sF pT
  have one: "\<exists>best. best \<in> set (map snd car_park)
        \<and> spot_response best = spot_response ?F
        \<and> status_of best = JStr ''free''
        \<and> carries ''forElectricCharging'' best \<and> carries ''forDisabled'' best
        \<and> carries ''forWomen'' best"
    unfolding rF by blast
  from find_parking_spot_respects_constraints
         [of example_env ?W "map snd car_park" "wants False False False" _ ?E]
       a fA [unfolded rA] sA pF E
  have two: "(\<exists>best. best \<in> set (map snd car_park)
        \<and> spot_response best = spot_response ?A
        \<and> status_of best = JStr ''free''
        \<and> \<not> carries ''forDisabled'' best \<and> \<not> carries ''forWomen'' best)
      \<and> eligible (wants False False False) ?E"
    unfolding rA by blast
  from a fF fA one two E show ?thesis by blast
qed


subsection \<open>The least specialised eligible spot, the first of them\<close>

text \<open>
  When the broker answers the listing with the spots \<open>spots\<close>, no spot makes the
  scan raise and at least one spot is eligible, \<^verbatim>\<open>find_parking_spot\<close> answers with the
  response of an eligible spot \<open>best\<close> of the list whose weight is the number of the
  tags \<^verbatim>\<open>forElectricCharging\<close>, \<^verbatim>\<open>forDisabled\<close>, \<^verbatim>\<open>forWomen\<close> it carries (at most 3);
  every eligible spot before \<open>best\<close> in the list weighs strictly more and every eligible
  spot after it weighs at least as much: the minimum weight, the first spot that has it.
\<close>

theorem find_parking_spot_min_weight:
  assumes answer: "get_json (fst (broker env (store w)
             (Request GET (ORION_URL @ ''?type=SmartIndoorParkingSpot'') [] None)))
           = Some (JArr spots)"
      and readable: "\<forall>s\<in>set spots. \<not> raises p s"
      and some: "\<exists>s\<in>set spots. eligible p s"
  shows "\<exists>pre best post. spots = pre @ best # post \<and> eligible p best
     \<and> examine_spot p best = Inr (Some (tag_count best)) \<and> tag_count best \<le> 3
     \<and> (\<forall>t\<in>set pre. eligible p t \<longrightarrow> tag_count best < tag_count t)
     \<and> (\<forall>t\<in>set post. eligible p t \<longrightarrow> tag_count best \<le> tag_count t)
     \<and> fst (find_parking_spot env p w) = spot_response best"
proof -
  from readable have "\<forall>s\<in>set spots. \<exists>r. examine_spot p s = Inr r"
    by (simp add: raises_iff)
  from scan_spots_total [OF this] obtain suit where scan: "scan_spots p spots = Inr suit" ..
  from some obtain s where "s \<in> set spots" "eligible p s" ..
  then have "(s, tag_count s) \<in> set (suitable_of p spots)"
    by (simp add: suitable_of_mem eligible_weight)
  with scan scan_spots_Inr [OF scan] have "suit \<noteq> []" by auto
  from match_spots_selected [OF scan this] obtain pre best post where
    h: "spots = pre @ best # post" "eligible p best"
       "\<forall>t\<in>set pre. eligible p t \<longrightarrow> tag_count best < tag_count t"
       "\<forall>t\<in>set post. eligible p t \<longrightarrow> tag_count best \<le> tag_count t"
       "match_spots p spots = spot_response best"
    by blast
  from answer have "fst (find_parking_spot env p w) = match_spots p spots"
    by (rule find_parking_spot_body [OF refl])
  with h eligible_weight [OF h(2)] tag_count_le [of best] show ?thesis by metis
qed

text \<open>A request for a disabled spot in the car park: C weighs 2 and comes first, B and D
  weigh 1, F weighs 3; the answer is B.\<close>

theorem find_parking_spot_min_weight_witness:
  "get_json (fst (broker example_env (store (example_world car_park [1]))
       (Request GET (ORION_URL @ ''?type=SmartIndoorParkingSpot'') [] None)))
     = Some (JArr (map snd car_park))
   \<and> list_all (\<lambda>s. \<not> raises (wants True False False) s) (map snd car_park)
   \<and> list_ex (eligible (wants True False False)) (map snd car_park)
   \<and> (\<exists>pre best post. map snd car_park = pre @ best # post
        \<and> eligible (wants True False False) best
        \<and> examine_spot (wants True False False) best = Inr (Some (tag_count best))
        \<and> fst (find_parking_spot example_env (wants True False False)
                 (example_world car_park [1])) = spot_response best)"
proof -
  have a: "get_json (fst (broker example_env (store (example_world car_park [1]))
       (Request GET (ORION_URL @ ''?type=SmartIndoorParkingSpot'') [] None)))
     = Some (JArr (map snd car_park))"
    by (simp add: example_defs)
  have b: "\<forall>s\<in>set (map snd car_park). \<not> raises (wants True False False) s"
    by (simp add: example_defs matching_defs)
  have c: "\<exists>s\<in>set (map snd car_park). eligible (wants True False False) s"
    by (simp add: example_defs matching_defs)
  from find_parking_spot_min_weight [OF a b c] a b c show ?thesis
    unfolding list_all_iff list_ex_iff by blast
qed


lemma find_parking_spot_first_of_least_weight:
  "fst (find_parking_spot example_env (wants True False False) (example_world car_park [1]))
   = Inr (JObj [(''status'', JStr ''success''), (''assigned_spot_id'', JStr ''B''),
        (''spot_number'', JNull), (''coordinates'', JArr [JNum 4, JNum 7]),
        (''message'', JStr ''Spot reserved successfully.'')])"
  by (simp add: find_parking_spot_def http_call_def match_spots_def spot_response_def
        example_defs matching_defs)

text \<open>
  C4. The selection holds on the lists on which the scan does not raise, and only there:
  with the spot A free and without its \<^verbatim>\<open>category\<close> attribute listed before the
  spot B, free and untagged, B is eligible for a generic request with the weight 0, the
  least there is, and \<^verbatim>\<open>find_parking_spot\<close> raises \<^verbatim>\<open>TypeError\<close> at A instead of
  answering with B.
\<close>

theorem find_parking_spot_eligible_spot_not_returned:
  "eligible (wants False False False) (parking_spot ''B'' ''free'' [])
   \<and> tag_count (parking_spot ''B'' ''free'' []) = 0
   \<and> get_json (fst (broker example_env
        (store (example_world [(''A'', spot_without_category ''A''),
                               (''B'', parking_spot ''B'' ''free'' [])] []))
        listing_request))
     = Some (JArr [spot_without_category ''A'', parking_spot ''B'' ''free'' []])
   \<and> fst (find_parking_spot example_env (wants False False False)
         (example_world [(''A'', spot_without_category ''A''),
                         (''B'', parking_spot ''B'' ''free'' [])] []))
     = Inl TypeError"
  by (simp add: handler_defs example_defs matching_defs listing_request_def)

subsection \<open>Spots without status or categories\<close>

text \<open>
  C5. A spot without a status is skipped, but a free spot without the \<^verbatim>\<open>category\<close>
  attribute ends the scan: \<^verbatim>\<open>get_clean_value\<close> returns \<^verbatim>\<open>None\<close> for the missing
  attribute and \<^verbatim>\<open>"forElectricCharging" in None\<close> raises \<^verbatim>\<open>TypeError\<close>, which nothing
  catches. With the spot A lacking its categories and the spot B free and untagged, the
  handler raises instead of answering with B, for every request.
\<close>

theorem find_parking_spot_missing_category_raises:
  "fst (find_parking_spot example_env p
         (example_world [(''A'', spot_without_category ''A''),
                         (''B'', parking_spot ''B'' ''free'' [])] cs))
   = Inl TypeError"
  by (simp add: handler_defs example_defs matching_defs)


lemma spot_without_status_skipped:
  "status_of (JObj kvs) \<noteq> JStr ''free'' \<Longrightarrow> examine_spot p (JObj kvs) = Inr None"
  by (simp add: examine_spot_def status_of_def Let_def)

lemma free_spot_without_categories_raises:
  "status_of spot = JStr ''free'' \<Longrightarrow> categories_of spot = JNull
   \<Longrightarrow> examine_spot p spot = Inl TypeError"
  by (cases spot) (simp_all add: examine_spot_def status_of_def categories_of_def Let_def)

lemma missing_category_is_null:
  "map_of kvs ''category'' = None \<Longrightarrow> categories_of (JObj kvs) = JNull"
  by (simp add: categories_of_def dict_get_def get_clean_value_def)

lemma missing_status_not_free:
  "map_of kvs ''status'' = None \<Longrightarrow> status_of (JObj kvs) \<noteq> JStr ''free''"
  by (simp add: status_of_def dict_get_def get_clean_value_def)

section \<open>Properties of booking and broadcast\<close>

subsection \<open>What one call does\<close>

lemma http_call_eq:
  "http_call env req w =
     (fst (broker env (store w) req),
      w\<lparr>store := snd (broker env (store w) req),
        trace := trace w @ [Http req (fst (broker env (store w) req))]\<rparr>)"
  by (simp add: http_call_def split: prod.splits)

lemma send_loop_eq:
  "send_loop env payload cs w =
     (if list_all (send_ok env) cs then Inr () else Inl SendError,
      w\<lparr>trace := trace w @ attempts env payload cs\<rparr>)"
  by (induction cs arbitrary: w) simp_all

lemma send_coordinates_eq:
  "send_coordinates env spot_id coords w =
     (if list_all (send_ok env) (active_connections w) then Inr () else Inl SendError,
      w\<lparr>trace := trace w
            @ attempts env (dispatch_payload env spot_id coords) (active_connections w)\<rparr>)"
  by (simp add: send_coordinates_def send_loop_eq)

lemma attempts_are_sends: "e \<in> set (attempts env payload cs) \<Longrightarrow> is_send e"
  by (induction cs) (auto split: if_splits)

lemma new_effects_append: "trace w' = trace w @ new \<Longrightarrow> new_effects w w' = new"
  by (simp add: new_effects_def)

lemma patch_outcome_Inl:
  "patch_outcome res = Inl e \<Longrightarrow> e = HTTPException 400 \<or> e = HTTPException 500"
  by (auto simp: patch_outcome_def split: http_result.splits if_splits)

lemma book_parking_spot_cases:
  assumes "book_parking_spot env spot_id w = (r, w')"
  obtains
    (read_failed) res where
      "res = fst (broker env (store w) (reread_request spot_id))"
      "get_json res = None" "r = Inl (HTTPException 500)"
      "trace w' = trace w @ [Http (reread_request spot_id) res]"
      "active_connections w' = active_connections w"
  | (no_coordinates) res response e where
      "res = fst (broker env (store w) (reread_request spot_id))"
      "get_json res = Some response" "read_coordinates response = Inl e" "r = Inl e"
      "trace w' = trace w @ [Http (reread_request spot_id) res]"
      "active_connections w' = active_connections w"
  | (rejected) res response coords res2 e where
      "res = fst (broker env (store w) (reread_request spot_id))"
      "get_json res = Some response" "read_coordinates response = Inr coords"
      "res2 = fst (broker env (snd (broker env (store w) (reread_request spot_id)))
                 (occupy_request spot_id))"
      "patch_outcome res2 = Inl e" "r = Inl e"
      "trace w' = trace w @ [Http (reread_request spot_id) res, Http (occupy_request spot_id) res2]"
      "active_connections w' = active_connections w"
  | (written) res response coords res2 where
      "res = fst (broker env (store w) (reread_request spot_id))"
      "get_json res = Some response" "read_coordinates response = Inr coords"
      "res2 = fst (broker env (snd (broker env (store w) (reread_request spot_id)))
                 (occupy_request spot_id))"
      "patch_outcome res2 = Inr ()"
      "r = (if list_all (send_ok env) (active_connections w)
            then Inr (JObj [(''status'', JStr ''success''),
                            (''message'', JStr (''Spot '' @ spot_id
                               @ '' is now locked. Other users will not see it.''))])
            else Inl SendError)"
      "trace w' = trace w @ [Http (reread_request spot_id) res, Http (occupy_request spot_id) res2]
          @ attempts env (dispatch_payload env spot_id coords) (active_connections w)"
      "active_connections w' = active_connections w"
proof -
  let ?res = "fst (broker env (store w) (reread_request spot_id))"
  let ?res2 = "fst (broker env (snd (broker env (store w) (reread_request spot_id)))
                 (occupy_request spot_id))"
  show thesis
  proof (cases "get_json ?res")
    case None
    with assms show thesis
      by (intro read_failed [of ?res])
         (auto simp: book_parking_spot_def http_call_eq reread_request_def)
  next
    case (Some response)
    show thesis
    proof (cases "read_coordinates response")
      case (Inl e)
      with Some assms show thesis
        by (intro no_coordinates [of ?res response e])
           (auto simp: book_parking_spot_def http_call_eq reread_request_def)
    next
      case (Inr coords)
      show thesis
      proof (cases "patch_outcome ?res2")
        case (Inl e)
        with Some Inr assms show thesis
          by (intro rejected [of ?res response coords ?res2 e])
             (auto simp: book_parking_spot_def http_call_eq reread_request_def
                occupy_request_def)
      next
        case Inr2: (Inr u)
        with Some Inr assms show thesis
          by (intro written [of ?res response coords ?res2])
             (auto simp: book_parking_spot_def http_call_eq reread_request_def
                occupy_request_def send_coordinates_eq split: if_splits)
      qed
    qed
  qed
qed

lemma confirmed_occupy [simp]:
  "confirmed_write spot_id (Http (occupy_request spot_id) res) = (patch_outcome res = Inr ())"
  by (simp add: occupy_request_def)

lemma rejected_occupy [simp]:
  "rejected_write spot_id (Http (occupy_request spot_id) res) = (patch_outcome res \<noteq> Inr ())"
  by (simp add: occupy_request_def)

lemma not_written_reread [simp]:
  "\<not> confirmed_write spot_id (Http (reread_request spot_id) res)"
  "\<not> rejected_write spot_id (Http (reread_request spot_id) res)"
  by (simp_all add: reread_request_def)

lemma attempts_not_written:
  "e \<in> set (attempts env payload cs) \<Longrightarrow> \<not> rejected_write spot_id e \<and> \<not> confirmed_write spot_id e"
  by (induction cs) (auto split: if_splits)

lemma send_after_two:
  assumes "[a, b] @ sends = pre @ e # post" and "is_send e" and "\<not> is_send a" "\<not> is_send b"
  shows "b \<in> set pre"
proof (cases pre)
  case Nil
  with assms show ?thesis by simp
next
  case (Cons x pre')
  show ?thesis
  proof (cases pre')
    case Nil
    with Cons assms show ?thesis by simp
  next
    case (Cons y pre'')
    with \<open>pre = x # pre'\<close> assms show ?thesis by simp
  qed
qed

lemmas booking_defs =
  book_parking_spot_def http_call_def read_coordinates_def send_coordinates_def
  patch_outcome_def dispatch_payload_def status_payload_def new_effects_def
  reread_request_def occupy_request_def flaky_env_def

subsection \<open>The write is confirmed before anything is sent\<close>

text \<open>
  C1. For every broker, spot id and state, the effects of one call of
  \<^verbatim>\<open>book_parking_spot\<close> are such that every \<^verbatim>\<open>send_json\<close> comes after a \<^verbatim>\<open>PATCH\<close> of
  the status \<^verbatim>\<open>occupied\<close> on this spot that the store answered without error. When the
  re-read fails (no connection, an error status such as the 404 of an unknown spot, a
  body that is not JSON) the call ends with the code 500 and sends nothing; when the store
  rejects the \<^verbatim>\<open>PATCH\<close> the call ends with the code 400 (or 500 when the request itself
  failed) and sends nothing; and a call that returns has had its write confirmed.
\<close>

theorem book_parking_spot_write_before_broadcast:
  assumes "book_parking_spot env spot_id w = (r, w')"
  shows "trace w' = trace w @ new_effects w w'
     \<and> (\<forall>pre e post. new_effects w w' = pre @ e # post \<and> is_send e
            \<longrightarrow> list_ex (confirmed_write spot_id) pre)
     \<and> (get_json (fst (broker env (store w) (reread_request spot_id))) = None
            \<longrightarrow> r = Inl (HTTPException 500) \<and> \<not> list_ex is_send (new_effects w w'))
     \<and> (list_ex (rejected_write spot_id) (new_effects w w')
            \<longrightarrow> (r = Inl (HTTPException 400) \<or> r = Inl (HTTPException 500))
                \<and> \<not> list_ex is_send (new_effects w w'))
     \<and> (\<forall>answer. r = Inr answer
            \<longrightarrow> list_ex (confirmed_write spot_id) (new_effects w w'))"
  using assms
proof (cases rule: book_parking_spot_cases)
  case (read_failed res)
  have new: "new_effects w w' = [Http (reread_request spot_id) res]"
    by (rule new_effects_append) (rule read_failed(4))
  from read_failed(1-4) show ?thesis
    by (auto simp: new Cons_eq_append_conv
          simp del: rejected_write.simps confirmed_write.simps)
next
  case (no_coordinates res response e)
  have new: "new_effects w w' = [Http (reread_request spot_id) res]"
    by (rule new_effects_append) (rule no_coordinates(5))
  from no_coordinates(1-5) show ?thesis
    by (auto simp: new Cons_eq_append_conv
          simp del: rejected_write.simps confirmed_write.simps)
next
  case (rejected res response coords res2 e)
  have new: "new_effects w w'
      = [Http (reread_request spot_id) res, Http (occupy_request spot_id) res2]"
    by (rule new_effects_append) (rule rejected(7))
  from rejected(1-7) patch_outcome_Inl [OF rejected(5)] show ?thesis
    by (auto simp: new Cons_eq_append_conv
          simp del: rejected_write.simps confirmed_write.simps)
next
  case (written res response coords res2)
  let ?atts = "attempts env (dispatch_payload env spot_id coords) (active_connections w)"
  have new: "new_effects w w' = [Http (reread_request spot_id) res, Http (occupy_request spot_id) res2] @ ?atts"
    by (rule new_effects_append) (simp add: written(7))
  have order: "list_ex (confirmed_write spot_id) pre"
    if "new_effects w w' = pre @ e # post" "is_send e" for pre e post
  proof -
    from that new
    have "[Http (reread_request spot_id) res, Http (occupy_request spot_id) res2] @ ?atts
            = pre @ e # post"
      by simp
    from send_after_two [OF this that(2)]
    have "Http (occupy_request spot_id) res2 \<in> set pre" by simp
    with written(5) show ?thesis
      by (auto simp: list_ex_iff simp del: rejected_write.simps confirmed_write.simps
            intro!: bexI [of _ "Http (occupy_request spot_id) res2"])
  qed
  have norej: "\<not> list_ex (rejected_write spot_id) (new_effects w w')"
    using written(5) attempts_not_written [of _ env _ _ spot_id]
    by (auto simp: new list_ex_iff simp del: rejected_write.simps confirmed_write.simps)
  have conf: "list_ex (confirmed_write spot_id) (new_effects w w')"
    using written(5) by (simp add: new del: rejected_write.simps confirmed_write.simps)
  from written(1,2) have "get_json (fst (broker env (store w) (reread_request spot_id))) \<noteq> None"
    by simp
  with order norej conf written(7) new show ?thesis by auto
qed

text \<open>Three calls in the car park: the spot A is booked and the two machines are told
  after the write; the spot Z does not exist; the store refuses the occupied
  spot O.\<close>

theorem book_parking_spot_write_before_broadcast_witness:
  "fst (book_parking_spot example_env ''A'' (example_world car_park [7, 8]))
     = Inr (JObj [(''status'', JStr ''success''),
          (''message'', JStr ''Spot A is now locked. Other users will not see it.'')])
   \<and> new_effects (example_world car_park [7, 8])
        (snd (book_parking_spot example_env ''A'' (example_world car_park [7, 8])))
     = [Http (reread_request ''A'') (Response 200 (Some (parking_spot ''A'' ''free'' []))),
        Http (occupy_request ''A'') (Response 204 None)]
       @ SendJson 7 (dispatch_payload example_env ''A'' (JArr [JNum 4, JNum 7])) True
       # [SendJson 8 (dispatch_payload example_env ''A'' (JArr [JNum 4, JNum 7])) True]
   \<and> is_send (SendJson 7 (dispatch_payload example_env ''A'' (JArr [JNum 4, JNum 7])) True)
   \<and> list_ex (confirmed_write ''A'')
        [Http (reread_request ''A'') (Response 200 (Some (parking_spot ''A'' ''free'' []))),
         Http (occupy_request ''A'') (Response 204 None)]
   \<and> list_ex (confirmed_write ''A'')
        (new_effects (example_world car_park [7, 8])
          (snd (book_parking_spot example_env ''A'' (example_world car_park [7, 8]))))
   \<and> get_json (fst (broker example_env (store (example_world car_park [7, 8]))
        (reread_request ''Z''))) = None
   \<and> fst (book_parking_spot example_env ''Z'' (example_world car_park [7, 8]))
     = Inl (HTTPException 500)
   \<and> \<not> list_ex is_send (new_effects (example_world car_park [7, 8])
        (snd (book_parking_spot example_env ''Z'' (example_world car_park [7, 8]))))
   \<and> list_ex (rejected_write ''O'') (new_effects (example_world car_park [7, 8])
        (snd (book_parking_spot example_env ''O'' (example_world car_park [7, 8]))))
   \<and> fst (book_parking_spot example_env ''O'' (example_world car_park [7, 8]))
     = Inl (HTTPException 400)
   \<and> \<not> list_ex is_send (new_effects (example_world car_park [7, 8])
        (snd (book_parking_spot example_env ''O'' (example_world car_park [7, 8]))))"
proof -
  let ?W = "example_world car_park [7, 8]"
  let ?pay = "dispatch_payload example_env ''A'' (JArr [JNum 4, JNum 7])"
  let ?pre = "[Http (reread_request ''A'') (Response 200 (Some (parking_spot ''A'' ''free'' []))),
         Http (occupy_request ''A'') (Response 204 None)]"
  note A = book_parking_spot_write_before_broadcast
    [OF surjective_pairing [of "book_parking_spot example_env ''A'' ?W"]]
  note Z = book_parking_spot_write_before_broadcast
    [OF surjective_pairing [of "book_parking_spot example_env ''Z'' ?W"]]
  note O = book_parking_spot_write_before_broadcast
    [OF surjective_pairing [of "book_parking_spot example_env ''O'' ?W"]]
  have rA: "fst (book_parking_spot example_env ''A'' ?W)
     = Inr (JObj [(''status'', JStr ''success''),
          (''message'', JStr ''Spot A is now locked. Other users will not see it.'')])"
    by (simp add: booking_defs example_defs matching_defs)
  have nA: "new_effects ?W (snd (book_parking_spot example_env ''A'' ?W))
     = ?pre @ SendJson 7 ?pay True # [SendJson 8 ?pay True]"
    by (simp add: booking_defs example_defs matching_defs)
  have s7: "is_send (SendJson 7 ?pay True)" by simp
  from A nA s7 have c1: "list_ex (confirmed_write ''A'') ?pre" by blast
  from A rA have c2: "list_ex (confirmed_write ''A'')
        (new_effects ?W (snd (book_parking_spot example_env ''A'' ?W)))" by blast
  have gZ: "get_json (fst (broker example_env (store ?W) (reread_request ''Z''))) = None"
    by (simp add: booking_defs example_defs matching_defs)
  from Z gZ have z: "fst (book_parking_spot example_env ''Z'' ?W) = Inl (HTTPException 500)
    \<and> \<not> list_ex is_send (new_effects ?W (snd (book_parking_spot example_env ''Z'' ?W)))"
    by blast
  have jO: "list_ex (rejected_write ''O'')
      (new_effects ?W (snd (book_parking_spot example_env ''O'' ?W)))"
    by (simp add: booking_defs example_defs matching_defs)
  have rO: "fst (book_parking_spot example_env ''O'' ?W) = Inl (HTTPException 400)"
    by (simp add: booking_defs example_defs matching_defs)
  from O jO have o: "\<not> list_ex is_send
      (new_effects ?W (snd (book_parking_spot example_env ''O'' ?W)))"
    by blast
  from rA nA s7 c1 c2 gZ z jO rO o show ?thesis by blast
qed

subsection \<open>Booking the same spot twice\<close>

lemma book_parking_spot_connections:
  "book_parking_spot env spot_id w = (r, w') \<Longrightarrow> active_connections w' = active_connections w"
  by (cases rule: book_parking_spot_cases) simp_all

lemma filter_sends_attempts: "filter is_send (attempts env payload cs) = attempts env payload cs"
  by (induction cs) simp_all

lemma rejects_patch_outcome: "rejects res \<Longrightarrow> patch_outcome res = Inl (HTTPException 400)"
  by (cases res) (simp_all add: patch_outcome_def)

lemma book_parking_spot_success:
  assumes "book_parking_spot env spot_id w = (Inr answer, w')"
  shows "patch_outcome (fst (booking_write env spot_id (store w))) = Inr ()
     \<and> store w' = snd (booking_write env spot_id (store w))
     \<and> list_ex (confirmed_write spot_id) (new_effects w w')"
proof -
  let ?res = "fst (broker env (store w) (reread_request spot_id))"
  from assms obtain response where got: "get_json ?res = Some response"
    by (cases "get_json ?res")
       (auto simp: book_parking_spot_def http_call_eq reread_request_def)
  with assms obtain coords where c: "read_coordinates response = Inr coords"
    by (cases "read_coordinates response")
       (auto simp: book_parking_spot_def http_call_eq reread_request_def)
  from assms got c have p: "patch_outcome (fst (booking_write env spot_id (store w))) = Inr ()"
    by (cases "patch_outcome (fst (booking_write env spot_id (store w)))")
       (auto simp: book_parking_spot_def http_call_eq reread_request_def occupy_request_def
          booking_write_def)
  from assms got c p have "store w' = snd (booking_write env spot_id (store w))"
    by (auto simp: book_parking_spot_def http_call_eq reread_request_def occupy_request_def
          booking_write_def send_coordinates_eq split: if_splits)
  moreover from assms have "list_ex (confirmed_write spot_id) (new_effects w w')"
  proof (cases rule: book_parking_spot_cases)
    case (written res response coords res2)
    have "new_effects w w'
        = [Http (reread_request spot_id) res, Http (occupy_request spot_id) res2]
          @ attempts env (dispatch_payload env spot_id coords) (active_connections w)"
      by (rule new_effects_append) (simp add: written(7))
    with written(5) show ?thesis
      by (simp del: rejected_write.simps confirmed_write.simps)
  qed simp_all
  ultimately show ?thesis using p by simp
qed

text \<open>
  C2. Let the store be single-writer, as the specification has it: whenever it confirms
  the occupied-write of a booking, it rejects the occupied-write of the next booking of
  that spot. Then, after a call of \<^verbatim>\<open>book_parking_spot\<close> that succeeded (its write was
  confirmed), a second call on the same spot id fails, sends nothing and has no write
  confirmed: with the code 500 when its re-read fails (the spot is gone, the store is
  unreachable), and with the code 400 when the re-read gives the spot with its
  coordinates and the store rejects the write.
\<close>

theorem book_parking_spot_second_call_rejected:
  assumes first: "book_parking_spot env spot_id w = (Inr answer, w1)"
      and second: "book_parking_spot env spot_id w1 = (r2, w2)"
      and single_writer:
        "\<forall>s. patch_outcome (fst (booking_write env spot_id s)) = Inr ()
           \<longrightarrow> rejects (fst (booking_write env spot_id (snd (booking_write env spot_id s))))"
  shows "list_ex (confirmed_write spot_id) (new_effects w w1)
     \<and> (\<exists>e. r2 = Inl e)
     \<and> \<not> list_ex is_send (new_effects w1 w2)
     \<and> \<not> list_ex (confirmed_write spot_id) (new_effects w1 w2)
     \<and> (get_json (fst (broker env (store w1) (reread_request spot_id))) = None
          \<longrightarrow> r2 = Inl (HTTPException 500))
     \<and> (\<forall>response coords.
            get_json (fst (broker env (store w1) (reread_request spot_id))) = Some response
            \<and> read_coordinates response = Inr coords
          \<longrightarrow> r2 = Inl (HTTPException 400)
              \<and> list_ex (rejected_write spot_id) (new_effects w1 w2))"
proof -
  from book_parking_spot_success [OF first] have
    ok1: "patch_outcome (fst (booking_write env spot_id (store w))) = Inr ()"
    and s1: "store w1 = snd (booking_write env spot_id (store w))"
    and c1: "list_ex (confirmed_write spot_id) (new_effects w w1)"
    by simp_all
  from single_writer ok1 s1 have "rejects (fst (booking_write env spot_id (store w1)))"
    by simp
  then have rej: "patch_outcome (fst (booking_write env spot_id (store w1)))
      = Inl (HTTPException 400)"
    by (rule rejects_patch_outcome)
  from second show ?thesis
  proof (cases rule: book_parking_spot_cases)
    case (read_failed res)
    have new: "new_effects w1 w2 = [Http (reread_request spot_id) res]"
      by (rule new_effects_append) (rule read_failed(4))
    from read_failed(1-3) c1 show ?thesis
      by (auto simp: new simp del: rejected_write.simps confirmed_write.simps)
  next
    case (no_coordinates res response e)
    have new: "new_effects w1 w2 = [Http (reread_request spot_id) res]"
      by (rule new_effects_append) (rule no_coordinates(5))
    from no_coordinates(1-4) c1 show ?thesis
      by (auto simp: new simp del: rejected_write.simps confirmed_write.simps)
  next
    case (rejected res response coords res2 e)
    have new: "new_effects w1 w2
        = [Http (reread_request spot_id) res, Http (occupy_request spot_id) res2]"
      by (rule new_effects_append) (rule rejected(7))
    from rejected(4) have "res2 = fst (booking_write env spot_id (store w1))"
      by (simp add: booking_write_def)
    with rej rejected(5) have "e = HTTPException 400" by simp
    with rejected(1-6) c1 show ?thesis
      by (auto simp: new simp del: rejected_write.simps confirmed_write.simps)
  next
    case (written res response coords res2)
    from written(4) have "res2 = fst (booking_write env spot_id (store w1))"
      by (simp add: booking_write_def)
    with rej written(5) show ?thesis by simp
  qed
qed

subsection \<open>The example broker is single-writer\<close>

lemma attrs_url_inject [simp]: "attrs_url a = attrs_url b \<longleftrightarrow> a = b"
  by (simp add: attrs_url_def)

lemma find_map_same:
  "(\<And>x. P (f x) = P x) \<Longrightarrow> find P (map f xs) = map_option f (find P xs)"
  by (induction xs) simp_all

lemma map_of_merged:
  "map_of attrs k = Some v \<Longrightarrow>
   map_of (map (\<lambda>kv. (fst kv, case map_of patch (fst kv) of Some v' \<Rightarrow> v' | None \<Rightarrow> snd kv)) attrs) k
   = Some (case map_of patch k of Some v' \<Rightarrow> v' | None \<Rightarrow> v)"
  by (induction attrs) (auto split: if_splits)

lemma status_of_occupied_payload: "status_of (status_payload ''occupied'') = JStr ''occupied''"
  by (simp add: status_of_def status_payload_def dict_get_def get_clean_value_def)

lemma status_after_occupy:
  assumes "status_of e = JStr ''free''"
  shows "status_of (merge_attrs e (status_payload ''occupied'')) = JStr ''occupied''"
proof -
  from assms obtain attrs where e: "e = JObj attrs"
    by (cases e) (simp_all add: status_of_def)
  from assms e obtain st where st: "map_of attrs ''status'' = Some st"
    by (cases "map_of attrs ''status''")
       (simp_all add: status_of_def dict_get_def get_clean_value_def)
  let ?patch = "[(''status'', JObj [(''type'', JStr ''Property''), (''value'', JStr ''occupied'')]),
           (''occupancyModified'',
              JObj [(''type'', JStr ''Property''),
                    (''value'', JObj [(''@type'', JStr ''DateTime''),
                                      (''@value'', JStr ''2023-10-27T12:00:00Z'')])])]"
  have p: "status_payload ''occupied'' = JObj ?patch" by (simp add: status_payload_def)
  from map_of_merged [OF st, of ?patch]
  have "map_of (map (\<lambda>kv. (fst kv, case map_of ?patch (fst kv) of Some v' \<Rightarrow> v' | None \<Rightarrow> snd kv)) attrs)
          ''status''
        = Some (JObj [(''type'', JStr ''Property''), (''value'', JStr ''occupied'')])"
    by simp
  then show ?thesis
    unfolding e p
    by (simp add: status_of_def dict_get_def get_clean_value_def map_add_Some_iff
          del: map_of.simps)
qed

lemma entity_broker_reread: "snd (entity_broker s (reread_request spot_id)) = s"
  by (simp add: entity_broker_def reread_request_def split: option.splits)

lemma entity_broker_occupy:
  "entity_broker s (occupy_request spot_id) =
     (case find (\<lambda>ie. spot_id = fst ie) s of
        None \<Rightarrow> (Response 404 None, s)
      | Some ie \<Rightarrow>
          if status_of (snd ie) \<noteq> JStr ''free'' then (Response 409 None, s)
          else (Response 204 None,
                map (\<lambda>je. if fst je = fst ie
                           then (fst je, merge_attrs (snd je) (status_payload ''occupied''))
                           else je) s))"
  by (simp add: entity_broker_def occupy_request_def status_of_occupied_payload
        split: option.splits)

lemma entity_broker_single_writer:
  "patch_outcome (fst (booking_write example_env spot_id s)) = Inr ()
   \<Longrightarrow> rejects (fst (booking_write example_env spot_id
                      (snd (booking_write example_env spot_id s))))"
proof -
  assume ok: "patch_outcome (fst (booking_write example_env spot_id s)) = Inr ()"
  have bw: "booking_write example_env spot_id t = entity_broker t (occupy_request spot_id)" for t
    by (simp add: booking_write_def example_env_def entity_broker_reread)
  from ok obtain ie where f: "find (\<lambda>ie. spot_id = fst ie) s = Some ie"
    by (cases "find (\<lambda>ie. spot_id = fst ie) s")
       (simp_all add: bw entity_broker_occupy patch_outcome_def is_error_status_def)
  then have id: "fst ie = spot_id" by (auto simp: find_Some_iff)
  from ok f have free: "status_of (snd ie) = JStr ''free''"
    by (cases "status_of (snd ie) = JStr ''free''")
       (simp_all add: bw entity_broker_occupy patch_outcome_def is_error_status_def)
  let ?f = "\<lambda>je. if fst je = fst ie
                    then (fst je, merge_attrs (snd je) (status_payload ''occupied''))
                    else je"
  from f free have s': "snd (booking_write example_env spot_id s) = map ?f s"
    by (simp add: bw entity_broker_occupy)
  have "find (\<lambda>ie. spot_id = fst ie) (map ?f s) = map_option ?f (find (\<lambda>ie. spot_id = fst ie) s)"
    by (rule find_map_same) simp
  with f id have f': "find (\<lambda>ie. spot_id = fst ie) (map ?f s)
      = Some (spot_id, merge_attrs (snd ie) (status_payload ''occupied''))"
    by simp
  from status_after_occupy [OF free]
  have "status_of (merge_attrs (snd ie) (status_payload ''occupied'')) \<noteq> JStr ''free''"
    by simp
  with f' have "rejects (fst (entity_broker (map ?f s) (occupy_request spot_id)))"
    by (simp add: entity_broker_occupy is_error_status_def)
  then have "rejects (fst (booking_write example_env spot_id (map ?f s)))"
    by (simp only: bw)
  then show ?thesis by (simp only: s')
qed

text \<open>The spot A is booked and both machines are told; the second call is answered 409
  by the store, ends with the code 400 and sends nothing.\<close>

theorem book_parking_spot_second_call_rejected_witness:
  "fst (book_parking_spot example_env ''A''
          (example_world [(''A'', parking_spot ''A'' ''free'' [])] [7, 8]))
     = Inr (JObj [(''status'', JStr ''success''),
          (''message'', JStr ''Spot A is now locked. Other users will not see it.'')])
   \<and> filter is_send
        (new_effects (example_world [(''A'', parking_spot ''A'' ''free'' [])] [7, 8])
          (snd (book_parking_spot example_env ''A''
            (example_world [(''A'', parking_spot ''A'' ''free'' [])] [7, 8]))))
     = [SendJson 7 (dispatch_payload example_env ''A'' (JArr [JNum 4, JNum 7])) True,
        SendJson 8 (dispatch_payload example_env ''A'' (JArr [JNum 4, JNum 7])) True]
   \<and> list_ex (confirmed_write ''A'')
        (new_effects (example_world [(''A'', parking_spot ''A'' ''free'' [])] [7, 8])
          (snd (book_parking_spot example_env ''A''
            (example_world [(''A'', parking_spot ''A'' ''free'' [])] [7, 8]))))
   \<and> read_coordinates (merge_attrs (parking_spot ''A'' ''free'' []) (status_payload ''occupied'')) = Inr (JArr [JNum 4, JNum 7])
   \<and> fst (book_parking_spot example_env ''A''
          (snd (book_parking_spot example_env ''A''
            (example_world [(''A'', parking_spot ''A'' ''free'' [])] [7, 8]))))
     = Inl (HTTPException 400)
   \<and> list_ex (rejected_write ''A'')
        (new_effects
          (snd (book_parking_spot example_env ''A''
            (example_world [(''A'', parking_spot ''A'' ''free'' [])] [7, 8])))
          (snd (book_parking_spot example_env ''A''
            (snd (book_parking_spot example_env ''A''
              (example_world [(''A'', parking_spot ''A'' ''free'' [])] [7, 8]))))))
   \<and> \<not> list_ex is_send
        (new_effects
          (snd (book_parking_spot example_env ''A''
            (example_world [(''A'', parking_spot ''A'' ''free'' [])] [7, 8])))
          (snd (book_parking_spot example_env ''A''
            (snd (book_parking_spot example_env ''A''
              (example_world [(''A'', parking_spot ''A'' ''free'' [])] [7, 8]))))))
   \<and> \<not> list_ex (confirmed_write ''A'')
        (new_effects
          (snd (book_parking_spot example_env ''A''
            (example_world [(''A'', parking_spot ''A'' ''free'' [])] [7, 8])))
          (snd (book_parking_spot example_env ''A''
            (snd (book_parking_spot example_env ''A''
              (example_world [(''A'', parking_spot ''A'' ''free'' [])] [7, 8]))))))"
proof -
  let ?W = "example_world [(''A'', parking_spot ''A'' ''free'' [])] [7, 8]"
  let ?ok = "JObj [(''status'', JStr ''success''),
          (''message'', JStr ''Spot A is now locked. Other users will not see it.'')]"
  let ?W1 = "snd (book_parking_spot example_env ''A'' ?W)"
  let ?W2 = "snd (book_parking_spot example_env ''A'' ?W1)"
  have r1: "fst (book_parking_spot example_env ''A'' ?W) = Inr ?ok"
    by (simp add: booking_defs example_defs matching_defs)
  then have first: "book_parking_spot example_env ''A'' ?W = (Inr ?ok, ?W1)"
    by (simp add: prod_eq_iff)
  have sends: "filter is_send (new_effects ?W ?W1)
     = [SendJson 7 (dispatch_payload example_env ''A'' (JArr [JNum 4, JNum 7])) True,
        SendJson 8 (dispatch_payload example_env ''A'' (JArr [JNum 4, JNum 7])) True]"
    by (simp add: booking_defs example_defs matching_defs)
  have single: "\<forall>s. patch_outcome (fst (booking_write example_env ''A'' s)) = Inr ()
           \<longrightarrow> rejects (fst (booking_write example_env ''A''
                                (snd (booking_write example_env ''A'' s))))"
    using entity_broker_single_writer by blast
  note T = book_parking_spot_second_call_rejected
    [OF first surjective_pairing [of "book_parking_spot example_env ''A'' ?W1"] single]
  have reread: "get_json (fst (broker example_env (store ?W1) (reread_request ''A'')))
      = Some (merge_attrs (parking_spot ''A'' ''free'' []) (status_payload ''occupied''))"
    by (simp add: booking_defs example_defs matching_defs)
  have coords: "read_coordinates (merge_attrs (parking_spot ''A'' ''free'' []) (status_payload ''occupied''))
      = Inr (JArr [JNum 4, JNum 7])"
    by (simp add: read_coordinates_def parking_spot_def property_def and_then_def
          status_payload_def)
  from T reread coords
  have "fst (book_parking_spot example_env ''A'' ?W1) = Inl (HTTPException 400)
     \<and> list_ex (rejected_write ''A'') (new_effects ?W1 ?W2)"
    by blast
  with T r1 sends coords show ?thesis by blast
qed

subsection \<open>A spot without coordinates\<close>

text \<open>
  C6. \<^verbatim>\<open>find_parking_spot\<close> answers with the position \<^verbatim>\<open>[0,0]\<close> for a spot without a
  location, but \<^verbatim>\<open>book_parking_spot\<close> has no such fallback: it subscripts
  \<^verbatim>\<open>response['location']\<close> outside every \<^verbatim>\<open>try\<close>, and the re-read of a spot without a
  location ends the call with \<^verbatim>\<open>KeyError\<close>, after the read and before any write.
\<close>

theorem book_parking_spot_without_location_raises:
  "fst (book_parking_spot example_env ''A''
          (example_world [(''A'', spot_without_location ''A'')] [7, 8]))
     = Inl KeyError
   \<and> new_effects (example_world [(''A'', spot_without_location ''A'')] [7, 8])
        (snd (book_parking_spot example_env ''A''
          (example_world [(''A'', spot_without_location ''A'')] [7, 8])))
     = [Http (reread_request ''A'') (Response 200 (Some (spot_without_location ''A'')))]"
  by (simp add: booking_defs example_defs matching_defs)

lemma find_parking_spot_without_location:
  "fst (find_parking_spot example_env (wants False False False)
         (example_world [(''A'', spot_without_location ''A'')] [7, 8]))
   = Inr (JObj [(''status'', JStr ''success''), (''assigned_spot_id'', JStr ''A''),
        (''spot_number'', JNull), (''coordinates'', JArr [JNum 0, JNum 0]),
        (''message'', JStr ''Spot reserved successfully.'')])"
  by (simp add: handler_defs example_defs matching_defs)

lemma spot_response_without_location:
  "map_of kvs ''location'' = None \<Longrightarrow>
   spot_response (JObj kvs)
   = Inr (JObj [(''status'', JStr ''success''),
        (''assigned_spot_id'', dict_get kvs ''id''),
        (''spot_number'', get_clean_value (dict_get kvs ''spotNumber'')),
        (''coordinates'', JArr [JNum 0, JNum 0]),
        (''message'', JStr ''Spot reserved successfully.'')])"
  by (simp add: spot_response_def dict_get_def get_clean_value_def)

lemma spot_response_location_without_coordinates:
  "spot_response (JObj [(''id'', JStr ''A''),
       (''location'', JObj [(''type'', JStr ''GeoProperty''),
                            (''value'', JObj [(''type'', JStr ''Point'')])])])
   = Inr (JObj [(''status'', JStr ''success''), (''assigned_spot_id'', JStr ''A''),
        (''spot_number'', JNull), (''coordinates'', JNull),
        (''message'', JStr ''Spot reserved successfully.'')])"
  by (simp add: spot_response_def dict_get_def get_clean_value_def)

subsection \<open>A send that fails\<close>

text \<open>
  C7. With the machines 1 and 2 registered and the send to machine 1 failing,
  \<^verbatim>\<open>send_coordinates\<close> raises at machine 1: machine 2, whose send would succeed, is never
  sent the event, and machine 1 stays in \<^verbatim>\<open>active_connections\<close>.
\<close>

theorem send_coordinates_stops_at_failing_send:
  "fst (send_coordinates flaky_env ''A'' (JArr [JNum 4, JNum 7]) (example_world car_park [1, 2]))
     = Inl SendError
   \<and> send_ok flaky_env 2
   \<and> trace (snd (send_coordinates flaky_env ''A'' (JArr [JNum 4, JNum 7])
        (example_world car_park [1, 2])))
     = [SendJson 1 (dispatch_payload flaky_env ''A'' (JArr [JNum 4, JNum 7])) False]
   \<and> active_connections (snd (send_coordinates flaky_env ''A'' (JArr [JNum 4, JNum 7])
        (example_world car_park [1, 2])))
     = [1, 2]"
  by (simp add: send_coordinates_def flaky_env_def example_env_def example_world_def)

lemma send_coordinates_keeps_registry:
  "active_connections (snd (send_coordinates env spot_id coords w)) = active_connections w"
  by (simp add: send_coordinates_eq)

lemma send_coordinates_skips_later_connections:
  "\<not> send_ok env c \<Longrightarrow>
   trace (snd (send_loop env payload (c # cs) w)) = trace w @ [SendJson c payload False]"
  by simp

lemma book_parking_spot_failing_send:
  "fst (book_parking_spot flaky_env ''A'' (example_world car_park [1, 2])) = Inl SendError
   \<and> map (\<lambda>ie. status_of (snd ie))
        (filter (\<lambda>ie. fst ie = ''A'')
          (store (snd (book_parking_spot flaky_env ''A'' (example_world car_park [1, 2])))))
     = [JStr ''occupied'']"
  by (simp add: booking_defs example_defs matching_defs)

section \<open>Properties of clearing and deleting\<close>

subsection \<open>The count that clear_parking_spot reports\<close>

lemma clear_loop_effects:
  "clear_loop env spots w = (Inr u, w') \<Longrightarrow>
   \<exists>new. trace w' = trace w @ new \<and> list_all is_patch new
     \<and> (\<forall>u\<in>set (http_urls new). \<exists>i. u = attrs_url i)
     \<and> length new = length (filter (\<lambda>spot. status_of spot \<noteq> JStr ''free'') spots)"
proof (induction spots arbitrary: w)
  case Nil
  then show ?case by simp
next
  case (Cons spot rest)
  from Cons.prems obtain kvs where spot: "spot = JObj kvs"
    by (cases spot) (simp_all add: and_then_def)
  show ?case
  proof (cases "status_of spot = JStr ''free''")
    case True
    with Cons.prems spot have "clear_loop env rest w = (Inr u, w')"
      by (simp add: status_of_def)
    from Cons.IH [OF this] True show ?thesis by simp
  next
    case False
    let ?req = "Request PATCH (attrs_url (py_str env (dict_get kvs ''id''))) []
                  (Some (status_payload ''free''))"
    let ?w1 = "snd (http_call env ?req w)"
    from False Cons.prems spot have rest: "clear_loop env rest ?w1 = (Inr u, w')"
      by (auto simp: status_of_def split: prod.splits sum.splits)
    from Cons.IH [OF rest] obtain new where
      new: "trace w' = trace ?w1 @ new" "list_all is_patch new"
        "\<forall>u\<in>set (http_urls new). \<exists>i. u = attrs_url i"
        "length new = length (filter (\<lambda>spot. status_of spot \<noteq> JStr ''free'') rest)"
      by blast
    have t1: "trace ?w1 = trace w @ [Http ?req (fst (broker env (store w) ?req))]"
      by (simp add: http_call_eq)
    from new t1 False
    have "trace w' = trace w @ (Http ?req (fst (broker env (store w) ?req)) # new)
       \<and> list_all is_patch (Http ?req (fst (broker env (store w) ?req)) # new)
       \<and> (\<forall>u\<in>set (http_urls (Http ?req (fst (broker env (store w) ?req)) # new)).
              \<exists>i. u = attrs_url i)
       \<and> length (Http ?req (fst (broker env (store w) ?req)) # new)
           = length (filter (\<lambda>spot. status_of spot \<noteq> JStr ''free'') (spot # rest))"
      by auto
    then show ?thesis by blast
  qed
qed

lemmas clearing_defs =
  clear_parking_spot_def http_call_def patch_outcome_def status_payload_def new_effects_def
  listing_request_def free_request_def

text \<open>
  C10. Whenever \<^verbatim>\<open>clear_parking_spot\<close> returns, its message gives the number of spots
  the listing returned, \<^verbatim>\<open>len(all_spots)\<close>, while the \<^verbatim>\<open>PATCH\<close> requests it issued are
  one for each spot whose status was not \<^verbatim>\<open>"free"\<close>: the spots that were free already are
  counted in the message and were never patched.
\<close>

theorem clear_parking_spot_reports_fetched_count:
  assumes "clear_parking_spot env w = (Inr answer, w')"
  shows "\<exists>all_spots spots.
       get_json (fst (broker env (store w) listing_request)) = Some all_spots
     \<and> py_iter all_spots = Inr spots
     \<and> answer = JObj [(''status'', JStr ''success''),
                      (''message'', JStr (str_of_nat (length spots) @ '' Spots are now free.''))]
     \<and> length (filter is_patch (new_effects w w'))
         = length (filter (\<lambda>spot. status_of spot \<noteq> JStr ''free'') spots)"
proof -
  let ?res = "fst (broker env (store w) listing_request)"
  let ?w1 = "snd (http_call env listing_request w)"
  have t1: "trace ?w1 = trace w @ [Http listing_request ?res]"
    by (simp add: http_call_eq)
  from assms obtain all_spots where got: "get_json ?res = Some all_spots"
    by (cases "get_json ?res")
       (auto simp: clear_parking_spot_def http_call_eq listing_request_def)
  with assms obtain spots where it: "py_iter all_spots = Inr spots"
    by (cases "py_iter all_spots")
       (auto simp: clear_parking_spot_def http_call_eq listing_request_def)
  from assms got it obtain u where
    loop: "clear_loop env spots ?w1 = (Inr u, w')"
    and answer: "answer = JObj [(''status'', JStr ''success''),
        (''message'', JStr (str_of_nat (length spots) @ '' Spots are now free.''))]"
    by (auto simp: clear_parking_spot_def http_call_eq listing_request_def
          split: prod.splits sum.splits)
  from clear_loop_effects [OF loop] obtain new where
    new: "trace w' = trace ?w1 @ new" "list_all is_patch new"
      "length new = length (filter (\<lambda>spot. status_of spot \<noteq> JStr ''free'') spots)"
    by blast
  from new(1) t1 have "new_effects w w' = Http listing_request ?res # new"
    by (simp add: new_effects_def)
  moreover from new(2) have "filter is_patch new = new"
    by (simp add: list_all_iff)
  ultimately have "length (filter is_patch (new_effects w w')) = length new"
    by (simp add: listing_request_def)
  with got it answer new(3) show ?thesis by auto
qed

text \<open>The car park has seven spots, one of them occupied: one \<^verbatim>\<open>PATCH\<close>, and the message
  says seven.\<close>

theorem clear_parking_spot_reports_fetched_count_witness:
  "fst (clear_parking_spot example_env (example_world car_park []))
     = Inr (JObj [(''status'', JStr ''success''),
                  (''message'', JStr ''7 Spots are now free.'')])
   \<and> length car_park = 7
   \<and> filter is_patch (new_effects (example_world car_park [])
        (snd (clear_parking_spot example_env (example_world car_park []))))
     = [Http (free_request ''O'') (Response 204 None)]
   \<and> (\<exists>all_spots spots.
         get_json (fst (broker example_env (store (example_world car_park [])) listing_request))
           = Some all_spots
       \<and> py_iter all_spots = Inr spots
       \<and> fst (clear_parking_spot example_env (example_world car_park []))
           = Inr (JObj [(''status'', JStr ''success''),
                (''message'', JStr (str_of_nat (length spots) @ '' Spots are now free.''))])
       \<and> length (filter (\<lambda>spot. status_of spot \<noteq> JStr ''free'') spots) = 1)"
proof -
  let ?W = "example_world car_park []"
  let ?ok = "JObj [(''status'', JStr ''success''), (''message'', JStr ''7 Spots are now free.'')]"
  have r: "fst (clear_parking_spot example_env ?W) = Inr ?ok"
    by (simp add: clearing_defs example_defs matching_defs str_of_nat.simps)
  then have run: "clear_parking_spot example_env ?W
      = (Inr ?ok, snd (clear_parking_spot example_env ?W))"
    by (simp add: prod_eq_iff)
  have n: "length car_park = 7" by (simp add: car_park_def)
  have p: "filter is_patch (new_effects ?W (snd (clear_parking_spot example_env ?W)))
     = [Http (free_request ''O'') (Response 204 None)]"
    by (simp add: clearing_defs example_defs matching_defs)
  from clear_parking_spot_reports_fetched_count [OF run] obtain all_spots spots where
    h: "get_json (fst (broker example_env (store ?W) listing_request)) = Some all_spots"
       "py_iter all_spots = Inr spots"
       "?ok = JObj [(''status'', JStr ''success''),
                (''message'', JStr (str_of_nat (length spots) @ '' Spots are now free.''))]"
       "length (filter is_patch (new_effects ?W (snd (clear_parking_spot example_env ?W))))
         = length (filter (\<lambda>spot. status_of spot \<noteq> JStr ''free'') spots)"
    by blast
  from h(4) have one: "length (filter (\<lambda>spot. status_of spot \<noteq> JStr ''free'') spots) = 1"
    unfolding p by simp
  from r h(3) have "fst (clear_parking_spot example_env ?W)
           = Inr (JObj [(''status'', JStr ''success''),
                (''message'', JStr (str_of_nat (length spots) @ '' Spots are now free.''))])"
    by (simp only:)
  with h(1,2) one
  have "\<exists>all_spots spots.
         get_json (fst (broker example_env (store ?W) listing_request)) = Some all_spots
       \<and> py_iter all_spots = Inr spots
       \<and> fst (clear_parking_spot example_env ?W)
           = Inr (JObj [(''status'', JStr ''success''),
                (''message'', JStr (str_of_nat (length spots) @ '' Spots are now free.''))])
       \<and> length (filter (\<lambda>spot. status_of spot \<noteq> JStr ''free'') spots) = 1"
    by blast
  with r n p show ?thesis by blast
qed

subsection \<open>Deleting a garage and its spots\<close>






subsection \<open>The addresses of the requests\<close>



lemma http_urls_append [simp]: "http_urls (xs @ ys) = http_urls xs @ http_urls ys"
  by (induction xs rule: http_urls.induct) simp_all

lemma http_urls_attempts [simp]: "http_urls (attempts env payload cs) = []"
  by (induction cs) simp_all










end
